theory Spec2Isabelle
  imports Complex_Main "HOL-Library.Char_ord" "HOL-Library.List_Lexorder" "HOL-Library.Multiset"
begin

section \<open>Frequency-band occupancy histograms of mydarn\<close>

text \<open>
  A shallow embedding of \<^verbatim>\<open>Histogram.plot_freq_scan_hist\<close> and
  \<^verbatim>\<open>Histogram.plot_freq_scan_2d_hist\<close> (src/mydarn/histogram.py). Each section of
  the two Python functions (Check Frequency Bands, Generate Boundary, Gather Bands, Remove
  Bands, Gather Dates, Generate Histogram, Ordered Frequency Bands, Normalize) is one
  definition below, and the two entry points compose them in the source's order.

  Conventions of the embedding:
  \<^item> Python numbers (int and float) are exact reals; rounding of float64 and the range of
    int64 are not modelled. A transmitted frequency may also be NaN or infinite.
  \<^item> An exception is a value \<open>Inl e\<close>; a normal result is \<open>Inr x\<close>.
  \<^item> A FITACF record carries the fields the two functions read. The field
    \<^verbatim>\<open>gflg\<close> is optional, since the source catches its absence; the other fields are
    always present.
  \<^item> Drawing (matplotlib) and the radar-name lookup (pydarn) are not modelled and are taken
    to succeed, with a valid colour map name. The result of an entry point is the returned
    list together with the histogram array as it stands after the Normalize section.
\<close>

subsection \<open>Exceptions\<close>

datatype exn =
    TypeError string
  | ValueError string
  | Builtin_TypeError
  | Builtin_ValueError
  | Builtin_IndexError
  | Builtin_UnboundLocalError

text \<open>
  \<open>TypeError msg\<close> and \<open>ValueError msg\<close> are the exceptions the source raises itself,
  with their message. The \<open>Builtin\<close> ones are raised by the interpreter or a built-in:
  an unsupported operand or comparison (TypeError); \<^verbatim>\<open>min\<close>/\<^verbatim>\<open>max\<close> of an empty
  sequence, \<^verbatim>\<open>int\<close> of a string that is no numeral, \<^verbatim>\<open>datetime\<close> out of range and
  \<^verbatim>\<open>list.index\<close> of an absent element (ValueError); an index into an empty list
  (IndexError); a read of a local variable that was never assigned (UnboundLocalError).
\<close>

fun ebind :: "exn + 'a \<Rightarrow> ('a \<Rightarrow> exn + 'b) \<Rightarrow> exn + 'b" where
  "ebind (Inl e) f = Inl e"
| "ebind (Inr x) f = f x"

subsection \<open>Python values in a band table\<close>

datatype elem = Num real | Str string

fun py_eq :: "elem \<Rightarrow> elem \<Rightarrow> bool" where
  "py_eq (Num a) (Num b) = (a = b)"
| "py_eq (Str a) (Str b) = (a = b)"
| "py_eq _ _ = False"

fun py_lt :: "elem \<Rightarrow> elem \<Rightarrow> exn + bool" where
  "py_lt (Num a) (Num b) = Inr (a < b)"
| "py_lt (Str a) (Str b) = Inr (a < b)"
| "py_lt _ _ = Inl Builtin_TypeError"

fun py_le :: "elem \<Rightarrow> elem \<Rightarrow> exn + bool" where
  "py_le (Num a) (Num b) = Inr (a \<le> b)"
| "py_le (Str a) (Str b) = Inr (a \<le> b)"
| "py_le _ _ = Inl Builtin_TypeError"

definition py_gt :: "elem \<Rightarrow> elem \<Rightarrow> exn + bool" where
  "py_gt a b = py_lt b a"

definition py_ge :: "elem \<Rightarrow> elem \<Rightarrow> exn + bool" where
  "py_ge a b = py_le b a"

fun py_add :: "elem \<Rightarrow> elem \<Rightarrow> exn + elem" where
  "py_add (Num a) (Num b) = Inr (Num (a + b))"
| "py_add (Str a) (Str b) = Inr (Str (a @ b))"
| "py_add _ _ = Inl Builtin_TypeError"

fun py_sub :: "elem \<Rightarrow> elem \<Rightarrow> exn + elem" where
  "py_sub (Num a) (Num b) = Inr (Num (a - b))"
| "py_sub _ _ = Inl Builtin_TypeError"

fun py_div :: "elem \<Rightarrow> real \<Rightarrow> exn + elem" where
  "py_div (Num a) d = Inr (Num (a / d))"
| "py_div (Str a) d = Inl Builtin_TypeError"

text \<open>
  \<^verbatim>\<open>a or b\<close> and \<^verbatim>\<open>a and b\<close> evaluate \<open>b\<close> only when \<open>a\<close> does not decide.
\<close>

definition py_or :: "exn + bool \<Rightarrow> exn + bool \<Rightarrow> exn + bool" where
  "py_or a b = ebind a (\<lambda>x. if x then Inr True else b)"

definition py_and :: "exn + bool \<Rightarrow> exn + bool \<Rightarrow> exn + bool" where
  "py_and a b = ebind a (\<lambda>x. if x then b else Inr False)"

subsection \<open>str of an int, int of a str\<close>

definition digit_char :: "nat \<Rightarrow> char" where
  "digit_char n = char_of (48 + n)"

fun digits :: "nat \<Rightarrow> string" where
  "digits n = (if n < 10 then [digit_char n] else digits (n div 10) @ [digit_char (n mod 10)])"

declare digits.simps [simp del]

definition py_str :: "int \<Rightarrow> string" where
  "py_str i = (if i < 0 then CHR ''-'' # digits (nat (- i)) else digits (nat i))"

definition is_space :: "char \<Rightarrow> bool" where
  "is_space c = (c = CHR '' '' \<or> (9::nat) \<le> of_char c \<and> of_char c \<le> (13::nat)
                  \<or> (28::nat) \<le> of_char c \<and> of_char c \<le> (31::nat))"

definition is_digit :: "char \<Rightarrow> bool" where
  "is_digit c = ((48::nat) \<le> of_char c \<and> of_char c \<le> (57::nat))"

definition digit_val :: "char \<Rightarrow> nat" where
  "digit_val c = of_char c - 48"

fun parse_digits :: "string \<Rightarrow> nat \<Rightarrow> nat option" where
  "parse_digits [] acc = Some acc"
| "parse_digits (c # cs) acc =
     (if is_digit c then parse_digits cs (acc * 10 + digit_val c)
      else if c = CHR ''_'' \<and> cs \<noteq> [] \<and> is_digit (hd cs) then parse_digits cs acc
      else None)"

definition parse_number :: "string \<Rightarrow> nat option" where
  "parse_number s = (case s of [] \<Rightarrow> None | c # cs \<Rightarrow> if is_digit c then parse_digits s 0 else None)"

definition strip :: "string \<Rightarrow> string" where
  "strip s = rev (dropWhile is_space (rev (dropWhile is_space s)))"

definition py_int :: "string \<Rightarrow> exn + int" where
  "py_int s =
     (case strip s of
        [] \<Rightarrow> Inl Builtin_ValueError
      | c # cs \<Rightarrow>
          (case (if c = CHR ''-'' then map_option (\<lambda>n. - int n) (parse_number cs)
                 else if c = CHR ''+'' then map_option int (parse_number cs)
                 else map_option int (parse_number (c # cs))) of
             None \<Rightarrow> Inl Builtin_ValueError
           | Some i \<Rightarrow> Inr i))"

text \<open>
  \<open>py_str\<close> is the decimal numeral of an int. \<open>py_int\<close> reads a decimal numeral as
  Python's \<^verbatim>\<open>int\<close> does for ASCII text: surrounding white space (the blank and
  the control characters 9 to 13 and 28 to 31), one sign, digits, single underscores
  between digits.
\<close>

subsection \<open>The band table\<close>

datatype key = KInt int | KStr string

datatype bandval = PyList "elem list" | PyTuple "elem list" | PyScalar elem

datatype table = Dict "(key \<times> bandval) list" | NotDict

text \<open>
  A dict is the list of its items in insertion order; \<open>NotDict\<close> is any object whose type
  is not \<^verbatim>\<open>dict\<close>. A band that passed the check is a list of exactly two elements and is
  carried as a pair.
\<close>

type_synonym band = "elem \<times> elem"

definition check_band :: "bandval \<Rightarrow> exn + band" where
  "check_band v =
     (case v of
        PyList xs \<Rightarrow>
          if length xs \<noteq> 2 then Inl (TypeError ''Invalid frequency band format'')
          else Inr (xs ! 0, xs ! 1)
      | _ \<Rightarrow> Inl (TypeError ''Invalid frequency band format''))"

fun check_bands :: "(key \<times> bandval) list \<Rightarrow> exn + (key \<times> band) list" where
  "check_bands [] = Inr []"
| "check_bands ((k, v) # rest) =
     ebind (check_band v) (\<lambda>b. ebind (check_bands rest) (\<lambda>r. Inr ((k, b) # r)))"

fun check_freq_bands :: "table \<Rightarrow> exn + (key \<times> band) list" where
  "check_freq_bands NotDict = Inl (TypeError ''Invalid frequency bands format'')"
| "check_freq_bands (Dict kvs) = check_bands kvs"

subsection \<open>Generate Boundary\<close>

text \<open>
  \<^verbatim>\<open>(min(min(freq_bands.values())), max(max(freq_bands.values())))\<close>: the inner
  \<^verbatim>\<open>min\<close> and \<^verbatim>\<open>max\<close> compare the band lists themselves, lexicographically; the outer
  ones then compare the two elements of the list that was found.
\<close>

definition list_lt :: "band \<Rightarrow> band \<Rightarrow> exn + bool" where
  "list_lt x y =
     (if \<not> py_eq (fst x) (fst y) then py_lt (fst x) (fst y)
      else if \<not> py_eq (snd x) (snd y) then py_lt (snd x) (snd y)
      else Inr False)"

definition list_gt :: "band \<Rightarrow> band \<Rightarrow> exn + bool" where
  "list_gt x y =
     (if \<not> py_eq (fst x) (fst y) then py_gt (fst x) (fst y)
      else if \<not> py_eq (snd x) (snd y) then py_gt (snd x) (snd y)
      else Inr False)"

fun min_from :: "band \<Rightarrow> band list \<Rightarrow> exn + band" where
  "min_from best [] = Inr best"
| "min_from best (x # xs) = ebind (list_lt x best) (\<lambda>c. min_from (if c then x else best) xs)"

fun max_from :: "band \<Rightarrow> band list \<Rightarrow> exn + band" where
  "max_from best [] = Inr best"
| "max_from best (x # xs) = ebind (list_gt x best) (\<lambda>c. max_from (if c then x else best) xs)"

definition min_bands :: "band list \<Rightarrow> exn + band" where
  "min_bands bs = (case bs of [] \<Rightarrow> Inl Builtin_ValueError | x # xs \<Rightarrow> min_from x xs)"

definition max_bands :: "band list \<Rightarrow> exn + band" where
  "max_bands bs = (case bs of [] \<Rightarrow> Inl Builtin_ValueError | x # xs \<Rightarrow> max_from x xs)"

definition min_elems :: "band \<Rightarrow> exn + elem" where
  "min_elems b = ebind (py_lt (snd b) (fst b)) (\<lambda>c. Inr (if c then snd b else fst b))"

definition max_elems :: "band \<Rightarrow> exn + elem" where
  "max_elems b = ebind (py_gt (snd b) (fst b)) (\<lambda>c. Inr (if c then snd b else fst b))"

definition generate_boundary :: "(elem \<times> elem) option \<Rightarrow> (key \<times> band) list \<Rightarrow> exn + elem \<times> elem" where
  "generate_boundary boundary freq_bands =
     (case boundary of
        Some b \<Rightarrow> Inr b
      | None \<Rightarrow>
          ebind (min_bands (map snd freq_bands)) (\<lambda>mn.
          ebind (min_elems mn) (\<lambda>lo.
          ebind (max_bands (map snd freq_bands)) (\<lambda>mx.
          ebind (max_elems mx) (\<lambda>hi. Inr (lo, hi))))))"

subsection \<open>Gather Bands\<close>

text \<open>
  The 1D function keeps the parallel lists \<^verbatim>\<open>keys\<close>, \<^verbatim>\<open>bands\<close> and
  \<^verbatim>\<open>bin_centers\<close>; they grow together, so the model keeps one list of triples. The 2D
  function keeps \<^verbatim>\<open>keys\<close> (converted with \<^verbatim>\<open>int\<close>) and \<^verbatim>\<open>bands\<close>.
\<close>

fun gather_bands_1d :: "elem \<times> elem \<Rightarrow> (key \<times> band) list \<Rightarrow> exn + (key \<times> band \<times> elem) list" where
  "gather_bands_1d boundary [] = Inr []"
| "gather_bands_1d boundary ((k, v) # rest) =
     ebind (py_add (fst v) (snd v)) (\<lambda>s.
     ebind (py_div s 2) (\<lambda>center.
     ebind (py_or (py_le center (fst boundary)) (py_ge center (snd boundary))) (\<lambda>skip.
     ebind (gather_bands_1d boundary rest) (\<lambda>r.
       Inr (if skip then r else (k, v, center) # r)))))"

definition int_of_key :: "key \<Rightarrow> exn + int" where
  "int_of_key k = (case k of KInt i \<Rightarrow> Inr i | KStr s \<Rightarrow> py_int s)"

fun gather_bands_2d :: "elem \<times> elem \<Rightarrow> (key \<times> band) list \<Rightarrow> exn + (int \<times> band) list" where
  "gather_bands_2d boundary [] = Inr []"
| "gather_bands_2d boundary ((k, v) # rest) =
     ebind (py_or (py_lt (fst v) (fst boundary)) (py_gt (snd v) (snd boundary))) (\<lambda>skip.
     if skip then gather_bands_2d boundary rest
     else ebind (int_of_key k) (\<lambda>i.
          ebind (gather_bands_2d boundary rest) (\<lambda>r. Inr ((i, v) # r))))"

subsection \<open>Remove Bands\<close>

datatype ident = IInt int | IStr string

datatype omit_arg = OmitInt int | OmitList "ident list" | OmitStr string

text \<open>
  \<^verbatim>\<open>omit_bands\<close> is \<^verbatim>\<open>None\<close>, an int, a list of ints or strings, or a string (whose
  items are its characters). Each item is looked up as \<^verbatim>\<open>freq_bands[str(band)]\<close> in the
  table the caller passed; the bare \<^verbatim>\<open>except\<close> turns a failed lookup into the
  TypeError of the source.
\<close>

definition str_of_ident :: "ident \<Rightarrow> string" where
  "str_of_ident b = (case b of IInt i \<Rightarrow> py_str i | IStr s \<Rightarrow> s)"

definition omit_items :: "omit_arg \<Rightarrow> ident list" where
  "omit_items a = (case a of OmitInt i \<Rightarrow> [IInt i] | OmitList bs \<Rightarrow> bs | OmitStr s \<Rightarrow> map (\<lambda>c. IStr [c]) s)"

fun lookup_bands :: "(key \<times> band) list \<Rightarrow> ident list \<Rightarrow> band list option" where
  "lookup_bands freq_bands [] = Some []"
| "lookup_bands freq_bands (b # bs) =
     (case map_of freq_bands (KStr (str_of_ident b)) of
        None \<Rightarrow> None
      | Some v \<Rightarrow> map_option ((#) v) (lookup_bands freq_bands bs))"

definition remove_bands :: "omit_arg option \<Rightarrow> (key \<times> band) list \<Rightarrow> exn + band list option" where
  "remove_bands omit_bands freq_bands =
     (case omit_bands of
        None \<Rightarrow> Inr None
      | Some a \<Rightarrow>
          (case lookup_bands freq_bands (omit_items a) of
             None \<Rightarrow> Inl (TypeError ''Invalid frequency bands to omit'')
           | Some rb \<Rightarrow> Inr (Some rb)))"

subsection \<open>Records\<close>

datatype pyfloat = Finite real | NaN | PosInf | NegInf

record fitacf =
  channel :: int
  tfreq :: pyfloat
  gflg :: "int list option"
  time_yr :: int
  time_mo :: int
  time_dy :: int
  time_hr :: int

subsection \<open>Generate Histogram (1D)\<close>

fun num_pts :: "int list \<Rightarrow> int" where
  "num_pts [] = 0"
| "num_pts (g # gs) = (if g = 0 then 1 else 0) + num_pts gs"

definition in_band :: "band \<Rightarrow> real \<Rightarrow> exn + bool" where
  "in_band b freq = py_and (py_le (fst b) (Num freq)) (py_le (Num freq) (snd b))"

fun any_in_band :: "band list \<Rightarrow> real \<Rightarrow> exn + bool" where
  "any_in_band [] freq = Inr False"
| "any_in_band (b # bs) freq = py_or (in_band b freq) (any_in_band bs freq)"

fun band_index :: "band list \<Rightarrow> real \<Rightarrow> exn + nat option" where
  "band_index [] freq = Inr None"
| "band_index (b # bs) freq =
     ebind (in_band b freq) (\<lambda>c.
       if c then Inr (Some 0) else ebind (band_index bs freq) (\<lambda>r. Inr (map_option Suc r)))"

text \<open>
  The filters of one record, in the source's order: channel, NaN/inf, boundary, omitted
  bands. \<open>Inr None\<close> is \<^verbatim>\<open>continue\<close>; \<open>Inr (Some freq)\<close> goes on to the count.
\<close>

definition record_freq :: "elem \<times> elem \<Rightarrow> band list option \<Rightarrow> fitacf \<Rightarrow> exn + real option" where
  "record_freq boundary rb r =
     (if channel r \<noteq> 2 then Inr None
      else case tfreq r of
        Finite freq \<Rightarrow>
          ebind (py_or (py_le (Num freq) (fst boundary)) (py_ge (Num freq) (snd boundary))) (\<lambda>out.
          if out then Inr None
          else ebind (case rb of None \<Rightarrow> Inr False | Some bs \<Rightarrow> any_in_band bs freq) (\<lambda>omitted.
               if omitted then Inr None else Inr (Some freq)))
      | _ \<Rightarrow> Inr None)"

definition hist_step :: "elem \<times> elem \<Rightarrow> band list option \<Rightarrow> band list \<Rightarrow> fitacf \<Rightarrow> int list \<Rightarrow> exn + int list" where
  "hist_step boundary rb bands r hist =
     ebind (record_freq boundary rb r) (\<lambda>fo.
       case fo of
         None \<Rightarrow> Inr hist
       | Some freq \<Rightarrow>
           (case gflg r of
              None \<Rightarrow> Inr hist
            | Some g \<Rightarrow>
                ebind (band_index bands freq) (\<lambda>bi.
                  case bi of
                    None \<Rightarrow> Inr hist
                  | Some i \<Rightarrow> Inr (hist[i := hist ! i + num_pts g]))))"

fun generate_hist :: "elem \<times> elem \<Rightarrow> band list option \<Rightarrow> band list \<Rightarrow> fitacf list \<Rightarrow> int list \<Rightarrow> exn + int list" where
  "generate_hist boundary rb bands [] hist = Inr hist"
| "generate_hist boundary rb bands (r # rs) hist =
     ebind (hist_step boundary rb bands r hist) (generate_hist boundary rb bands rs)"

subsection \<open>Ordered Frequency Bands\<close>

text \<open>
  \<^verbatim>\<open>np.argsort(x)[::-1]\<close>: the indices of \<open>x\<close> in ascending order of their values,
  reversed. numpy leaves the order among equal values to its sorting kernel; the model
  takes the stable order, and the theorems below use only that \<open>argsort\<close> returns every
  index once, in ascending order of the values.
\<close>

definition argsort :: "('a::linorder) list \<Rightarrow> nat list" where
  "argsort xs = sort_key (\<lambda>i. xs ! i) [0..<length xs]"

record entry =
  Band :: int
  Freq_Range :: band
  Count :: int

definition ordered_bands_1d :: "band list \<Rightarrow> int list \<Rightarrow> entry list" where
  "ordered_bands_1d bands hist =
     map (\<lambda>i. \<lparr>Band = int i, Freq_Range = bands ! i, Count = hist ! i\<rparr>) (rev (argsort hist))"

subsection \<open>Normalize (1D)\<close>

definition normalize_hist :: "bool \<Rightarrow> int list \<Rightarrow> real list" where
  "normalize_hist do_normalize hist =
     (if do_normalize \<and> sum_list hist \<noteq> 0
      then map (\<lambda>c. real_of_int c / real_of_int (sum_list hist)) hist
      else map real_of_int hist)"

subsection \<open>Dates\<close>

type_synonym datetime = "int \<times> int \<times> int \<times> int"

definition is_leap :: "int \<Rightarrow> bool" where
  "is_leap y = (if y mod 4 = 0 then (if y mod 100 = 0 then y mod 400 = 0 else True) else False)"

definition days_in_month :: "int \<Rightarrow> int \<Rightarrow> int" where
  "days_in_month y m =
     (if m = 2 then (if is_leap y then 29 else 28)
      else if m = 4 \<or> m = 6 \<or> m = 9 \<or> m = 11 then 30 else 31)"

definition datetime :: "int \<Rightarrow> int \<Rightarrow> int \<Rightarrow> int \<Rightarrow> exn + datetime" where
  "datetime y m d h =
     (if 1 \<le> y \<and> y \<le> 9999 \<and> 1 \<le> m \<and> m \<le> 12 \<and> 1 \<le> d \<and> d \<le> days_in_month y m \<and> 0 \<le> h \<and> h \<le> 23
      then Inr (y, m, d, h) else Inl Builtin_ValueError)"

subsection \<open>plot\_freq\_scan\_hist\<close>

record 'h result =
  ordered_bands :: "entry list"
  plotted :: 'h

text \<open>
  After the ranking the 1D function reads \<^verbatim>\<open>max(bands)\<close> for the bar width,
  \<^verbatim>\<open>ordered_bands[0]\<close> for the bar colour, and the first and last record for the title;
  each can raise.
\<close>

definition bar_width :: "band list \<Rightarrow> exn + elem" where
  "bar_width bands = ebind (max_bands bands) (\<lambda>m. py_sub (snd m) (fst m))"

definition title_dates_1d :: "fitacf list \<Rightarrow> exn + datetime \<times> datetime" where
  "title_dates_1d data =
     (if data = [] then Inl Builtin_IndexError
      else ebind (datetime (time_yr (hd data)) (time_mo (hd data)) 1 0) (\<lambda>s.
           ebind (datetime (time_yr (last data)) (time_mo (last data)) 1 0) (\<lambda>e. Inr (s, e))))"

definition plot_freq_scan_hist ::
  "fitacf list \<Rightarrow> table \<Rightarrow> bool \<Rightarrow> (elem \<times> elem) option \<Rightarrow> omit_arg option \<Rightarrow> bool \<Rightarrow> exn + (real list) result" where
  "plot_freq_scan_hist data freq_bands do_normalize boundary omit_bands show_txt =
     ebind (check_freq_bands freq_bands) (\<lambda>fb.
     ebind (generate_boundary boundary fb) (\<lambda>bnd.
     ebind (gather_bands_1d bnd fb) (\<lambda>gathered.
     ebind (remove_bands omit_bands fb) (\<lambda>rb.
     ebind (generate_hist bnd rb (map (fst \<circ> snd) gathered) data (replicate (length gathered) 0)) (\<lambda>hist.
     ebind (bar_width (map (fst \<circ> snd) gathered)) (\<lambda>w.
     ebind (title_dates_1d data) (\<lambda>t.
       Inr \<lparr>ordered_bands = ordered_bands_1d (map (fst \<circ> snd) gathered) hist,
            plotted = normalize_hist do_normalize hist\<rparr>)))))))"

subsection \<open>Gather Dates (2D)\<close>

text \<open>
  The \<^verbatim>\<open>if\<close>/\<^verbatim>\<open>elif\<close> chain that assigns the local variable \<^verbatim>\<open>date\<close>. The
  variable is a parameter and a result: a branch that assigns nothing (an odd hour under
  \<^verbatim>\<open>'hour'\<close>) leaves the value of the iteration before, and \<open>None\<close> is the variable
  not yet assigned. \<open>otherwise\<close> is what the chain does for any other \<^verbatim>\<open>date_bin\<close>: the
  first loop raises there, the second has no \<^verbatim>\<open>else\<close>.
\<close>

definition assign_date :: "exn + datetime option \<Rightarrow> string \<Rightarrow> fitacf \<Rightarrow> datetime option \<Rightarrow> exn + datetime option" where
  "assign_date otherwise date_bin r date =
     (if date_bin = ''year'' then ebind (datetime (time_yr r) 1 1 0) (\<lambda>d. Inr (Some d))
      else if date_bin = ''month'' then ebind (datetime 1 (time_mo r) 1 0) (\<lambda>d. Inr (Some d))
      else if date_bin = ''day'' then
        ebind (datetime (time_yr r) (time_mo r) (time_dy r) 0) (\<lambda>d. Inr (Some d))
      else if date_bin = ''hour'' then
        (if time_hr r mod 2 = 0 then ebind (datetime 1 1 1 (time_hr r)) (\<lambda>d. Inr (Some d))
         else Inr date)
      else otherwise)"

fun gather_dates :: "string \<Rightarrow> fitacf list \<Rightarrow> datetime option \<times> datetime list \<Rightarrow> exn + datetime option \<times> datetime list" where
  "gather_dates date_bin [] st = Inr st"
| "gather_dates date_bin (r # rs) st =
     (if channel r \<noteq> 2 then gather_dates date_bin rs st
      else
        ebind (assign_date (Inl (ValueError (''Invalid date bin type: '' @ date_bin))) date_bin r (fst st)) (\<lambda>date.
          case date of
            None \<Rightarrow> Inl Builtin_UnboundLocalError
          | Some d \<Rightarrow>
              gather_dates date_bin rs (date, if d \<in> set (snd st) then snd st else snd st @ [d])))"

subsection \<open>Generate Histogram (2D)\<close>

fun index_of :: "'a list \<Rightarrow> 'a \<Rightarrow> nat option" where
  "index_of [] y = None"
| "index_of (x # xs) y = (if x = y then Some 0 else map_option Suc (index_of xs y))"

definition hist2d_step ::
  "elem \<times> elem \<Rightarrow> band list option \<Rightarrow> band list \<Rightarrow> string \<Rightarrow> datetime list \<Rightarrow> fitacf \<Rightarrow>
   datetime option \<times> real list list \<Rightarrow> exn + datetime option \<times> real list list" where
  "hist2d_step boundary rb bands date_bin dates r st =
     ebind (record_freq boundary rb r) (\<lambda>fo.
       case fo of
         None \<Rightarrow> Inr st
       | Some freq \<Rightarrow>
           (case gflg r of
              None \<Rightarrow> Inr st
            | Some g \<Rightarrow>
                ebind (band_index bands freq) (\<lambda>bi.
                  case bi of
                    None \<Rightarrow> Inr st
                  | Some band_i \<Rightarrow>
                      ebind (assign_date (Inr (fst st)) date_bin r (fst st)) (\<lambda>date.
                        case date of
                          None \<Rightarrow> Inl Builtin_UnboundLocalError
                        | Some d \<Rightarrow>
                            (case index_of dates d of
                               None \<Rightarrow> Inl Builtin_ValueError
                             | Some date_i \<Rightarrow>
                                 Inr (date,
                                      (snd st)[band_i := (snd st ! band_i)
                                         [date_i := snd st ! band_i ! date_i + real_of_int (num_pts g)]]))))))"

fun generate_hist2d ::
  "elem \<times> elem \<Rightarrow> band list option \<Rightarrow> band list \<Rightarrow> string \<Rightarrow> datetime list \<Rightarrow> fitacf list \<Rightarrow>
   datetime option \<times> real list list \<Rightarrow> exn + datetime option \<times> real list list" where
  "generate_hist2d boundary rb bands date_bin dates [] st = Inr st"
| "generate_hist2d boundary rb bands date_bin dates (r # rs) st =
     ebind (hist2d_step boundary rb bands date_bin dates r st)
       (generate_hist2d boundary rb bands date_bin dates rs)"

subsection \<open>Ordered Frequency Bands and Normalize Columns (2D)\<close>

definition py_trunc :: "real \<Rightarrow> int" where
  "py_trunc x = (if x < 0 then - \<lfloor>- x\<rfloor> else \<lfloor>x\<rfloor>)"

definition band_sums :: "real list list \<Rightarrow> real list" where
  "band_sums hist2d = map sum_list hist2d"

definition ordered_bands_2d :: "band list \<Rightarrow> real list list \<Rightarrow> entry list" where
  "ordered_bands_2d bands hist2d =
     map (\<lambda>i. \<lparr>Band = int i, Freq_Range = bands ! i, Count = py_trunc (band_sums hist2d ! i)\<rparr>)
       (rev (argsort (band_sums hist2d)))"

definition column_sum :: "real list list \<Rightarrow> nat \<Rightarrow> real" where
  "column_sum hist2d c = sum_list (map (\<lambda>row. row ! c) hist2d)"

definition normalize_column :: "real list list \<Rightarrow> nat \<Rightarrow> real list list" where
  "normalize_column hist2d c =
     (if column_sum hist2d c > 0
      then map (\<lambda>row. row[c := row ! c / column_sum hist2d c]) hist2d
      else hist2d)"

fun normalize_columns :: "real list list \<Rightarrow> nat list \<Rightarrow> real list list" where
  "normalize_columns hist2d [] = hist2d"
| "normalize_columns hist2d (c # cs) = normalize_columns (normalize_column hist2d c) cs"

definition normalize_hist2d :: "bool \<Rightarrow> nat \<Rightarrow> real list list \<Rightarrow> real list list" where
  "normalize_hist2d do_normalize ncols hist2d =
     (if do_normalize then normalize_columns hist2d [0..<ncols] else hist2d)"

subsection \<open>plot\_freq\_scan\_2d\_hist\<close>

text \<open>
  After the Normalize section the 2D function masks cells for the colour map (not
  modelled: the mask changes only the drawn image), formats the first and last record's
  date by a chain without \<^verbatim>\<open>else\<close>, looks the radar up from the first record, compares
  \<^verbatim>\<open>start_date\<close> with \<^verbatim>\<open>end_date\<close>, and reads \<^verbatim>\<open>ordered_bands[0]\<close> when
  \<^verbatim>\<open>show_txt\<close> is set.
\<close>

definition format_dates :: "string \<Rightarrow> fitacf list \<Rightarrow> exn + (datetime \<times> datetime) option" where
  "format_dates date_bin data =
     (if date_bin = ''year'' then
        (if data = [] then Inl Builtin_IndexError
         else ebind (datetime (time_yr (hd data)) 1 1 0) (\<lambda>s.
              ebind (datetime (time_yr (last data)) 1 1 0) (\<lambda>e. Inr (Some (s, e)))))
      else if date_bin = ''month'' then
        (if data = [] then Inl Builtin_IndexError
         else ebind (datetime (time_yr (hd data)) (time_mo (hd data)) 1 0) (\<lambda>s.
              ebind (datetime (time_yr (last data)) (time_mo (last data)) 1 0) (\<lambda>e. Inr (Some (s, e)))))
      else if date_bin = ''day'' then
        (if data = [] then Inl Builtin_IndexError
         else ebind (datetime (time_yr (hd data)) (time_mo (hd data)) (time_dy (hd data)) 0) (\<lambda>s.
              ebind (datetime (time_yr (last data)) (time_mo (last data)) (time_dy (last data)) 0) (\<lambda>e.
                Inr (Some (s, e)))))
      else if date_bin = ''hour'' then
        (if data = [] then Inl Builtin_IndexError
         else ebind (datetime (time_yr (hd data)) (time_mo (hd data)) 1 0) (\<lambda>s.
              ebind (datetime (time_yr (last data)) (time_mo (last data)) 1 0) (\<lambda>e. Inr (Some (s, e)))))
      else Inr None)"

definition plot_titles_2d :: "string \<Rightarrow> fitacf list \<Rightarrow> bool \<Rightarrow> entry list \<Rightarrow> exn + unit" where
  "plot_titles_2d date_bin data show_txt ordered =
     ebind (format_dates date_bin data) (\<lambda>sd.
       if data = [] then Inl Builtin_IndexError
       else if sd = None then Inl Builtin_UnboundLocalError
       else if show_txt \<and> ordered = [] then Inl Builtin_IndexError
       else Inr ())"

definition plot_freq_scan_2d_hist ::
  "fitacf list \<Rightarrow> table \<Rightarrow> string \<Rightarrow> bool \<Rightarrow> (elem \<times> elem) option \<Rightarrow> omit_arg option \<Rightarrow> bool \<Rightarrow>
   exn + (real list list) result" where
  "plot_freq_scan_2d_hist data freq_bands date_bin do_normalize boundary omit_bands show_txt =
     ebind (check_freq_bands freq_bands) (\<lambda>fb.
     ebind (generate_boundary boundary fb) (\<lambda>bnd.
     ebind (gather_bands_2d bnd fb) (\<lambda>gathered.
     ebind (remove_bands omit_bands fb) (\<lambda>rb.
     ebind (gather_dates date_bin data (None, [])) (\<lambda>ds.
     ebind (generate_hist2d bnd rb (map snd gathered) date_bin (snd ds) data
              (fst ds, replicate (length gathered) (replicate (length (snd ds)) 0))) (\<lambda>st.
     ebind (plot_titles_2d date_bin data show_txt (ordered_bands_2d (map snd gathered) (snd st))) (\<lambda>u.
       Inr \<lparr>ordered_bands = ordered_bands_2d (map snd gathered) (snd st),
            plotted = normalize_hist2d do_normalize (length (snd ds)) (snd st)\<rparr>)))))))"

section \<open>Notions used to state the properties\<close>

text \<open>
  A band table whose values are lists of two numbers is given by its items
  \<open>(key, (low, high))\<close>; \<open>num_dict\<close> is the Python dict, \<open>num_bands\<close> its items after the
  check, \<open>nb\<close> one band.
\<close>

definition nb :: "real \<times> real \<Rightarrow> band" where
  "nb b = (Num (fst b), Num (snd b))"

definition num_bands :: "(key \<times> real \<times> real) list \<Rightarrow> (key \<times> band) list" where
  "num_bands t = map (\<lambda>(k, b). (k, nb b)) t"

definition num_dict :: "(key \<times> real \<times> real) list \<Rightarrow> table" where
  "num_dict t = Dict (map (\<lambda>(k, b). (k, PyList [Num (fst b), Num (snd b)])) t)"

text \<open>The two band filters: the centre strictly inside, both ends inside.\<close>

definition center_inside :: "real \<Rightarrow> real \<Rightarrow> key \<times> real \<times> real \<Rightarrow> bool" where
  "center_inside b0 b1 kb =
     (b0 < (fst (snd kb) + snd (snd kb)) / 2 \<and> (fst (snd kb) + snd (snd kb)) / 2 < b1)"

definition ends_inside :: "real \<Rightarrow> real \<Rightarrow> key \<times> real \<times> real \<Rightarrow> bool" where
  "ends_inside b0 b1 kb = (b0 \<le> fst (snd kb) \<and> snd (snd kb) \<le> b1)"

text \<open>
  The extractor's contract in plain terms: \<open>inside f b\<close> is the closed interval test,
  \<open>owner\<close> the first band (by position) whose interval holds the frequency,
  \<open>contributes\<close> the filter on a record, \<open>zeros\<close> the number of positions with
  \<^verbatim>\<open>gflg == 0\<close>, \<open>credit\<close> what one record adds to the band at position \<open>i\<close>, and
  \<open>counts\<close> the histogram these credits add up to.
\<close>

definition inside :: "real \<Rightarrow> real \<times> real \<Rightarrow> bool" where
  "inside f b = (fst b \<le> f \<and> f \<le> snd b)"

fun owner :: "(real \<times> real) list \<Rightarrow> real \<Rightarrow> nat option" where
  "owner [] f = None"
| "owner (b # bs) f = (if inside f b then Some 0 else map_option Suc (owner bs f))"

definition omitted :: "(real \<times> real) list option \<Rightarrow> (real \<times> real) list" where
  "omitted om = (case om of None \<Rightarrow> [] | Some bs \<Rightarrow> bs)"

definition contributes :: "real \<Rightarrow> real \<Rightarrow> (real \<times> real) list \<Rightarrow> fitacf \<Rightarrow> bool" where
  "contributes b0 b1 om r =
     (channel r = 2 \<and>
      (case tfreq r of Finite f \<Rightarrow> b0 < f \<and> f < b1 \<and> \<not> list_ex (inside f) om | _ \<Rightarrow> False) \<and>
      gflg r \<noteq> None)"

definition freq_of :: "fitacf \<Rightarrow> real" where
  "freq_of r = (case tfreq r of Finite f \<Rightarrow> f | _ \<Rightarrow> 0)"

definition zeros :: "fitacf \<Rightarrow> int" where
  "zeros r = (case gflg r of None \<Rightarrow> 0 | Some g \<Rightarrow> int (length (filter (\<lambda>x. x = 0) g)))"

definition credit :: "real \<Rightarrow> real \<Rightarrow> (real \<times> real) list \<Rightarrow> (real \<times> real) list \<Rightarrow> fitacf \<Rightarrow> nat \<Rightarrow> int" where
  "credit b0 b1 om bands r i =
     (if contributes b0 b1 om r \<and> owner bands (freq_of r) = Some i then zeros r else 0)"

definition counts :: "real \<Rightarrow> real \<Rightarrow> (real \<times> real) list \<Rightarrow> (real \<times> real) list \<Rightarrow> fitacf list \<Rightarrow> int list" where
  "counts b0 b1 om bands data = map (\<lambda>i. \<Sum>r\<leftarrow>data. credit b0 b1 om bands r i) [0..<length bands]"

text \<open>What the Check Frequency Bands section accepts: a dict whose values are lists of length two.\<close>

definition two_element_lists :: "table \<Rightarrow> bool" where
  "two_element_lists fb =
     (case fb of
        NotDict \<Rightarrow> False
      | Dict kvs \<Rightarrow> list_all (\<lambda>kv. case snd kv of PyList xs \<Rightarrow> length xs = 2 | _ \<Rightarrow> False) kvs)"

text \<open>A table of three adjoining bands and eight records at hour 14, used as a concrete input.\<close>

definition ex_table :: "(key \<times> real \<times> real) list" where
  "ex_table = [(KStr ''0'', (8000, 10000)), (KStr ''1'', (10000, 12000)), (KStr ''2'', (12000, 14000))]"

definition ex_record :: "int \<Rightarrow> pyfloat \<Rightarrow> int list option \<Rightarrow> fitacf" where
  "ex_record c f g = \<lparr>channel = c, tfreq = f, gflg = g, time_yr = 2024, time_mo = 5, time_dy = 17, time_hr = 14\<rparr>"

definition ex_data :: "fitacf list" where
  "ex_data =
     [ex_record 1 (Finite 9000) (Some [0, 0]),
      ex_record 2 NaN (Some [0]),
      ex_record 2 (Finite 9000) (Some [0, 0, 1]),
      ex_record 2 (Finite 11000) None,
      ex_record 2 (Finite 13000) (Some [0]),
      ex_record 2 (Finite 10000) (Some [0, 0, 0]),
      ex_record 2 (Finite 14000) (Some [0]),
      ex_record 2 (Finite 11000) (Some [0, 1, 1])]"

text \<open>A matrix of the given shape with no negative cell.\<close>

definition matrix_ok :: "nat \<Rightarrow> nat \<Rightarrow> real list list \<Rightarrow> bool" where
  "matrix_ok nrows ncols h =
     (length h = nrows \<and> list_all (\<lambda>row. length row = ncols \<and> list_all (\<lambda>x. 0 \<le> x) row) h)"

text \<open>A band table whose keys are all ints, and the TypeError of the Remove Bands section.\<close>

definition int_keyed :: "(key \<times> real \<times> real) list \<Rightarrow> bool" where
  "int_keyed t = list_all (\<lambda>kb. case fst kb of KInt i \<Rightarrow> True | KStr s \<Rightarrow> False) t"

definition omit_error :: exn where
  "omit_error = TypeError ''Invalid frequency bands to omit''"

section \<open>Properties\<close>

subsection \<open>Numeric tables through the sections\<close>

lemma ebind_Inr_iff: "ebind m f = Inr y \<longleftrightarrow> (\<exists>x. m = Inr x \<and> f x = Inr y)"
  by (cases m) auto

lemma check_bands_num:
  "check_bands (map (\<lambda>(k, b). (k, PyList [Num (fst b), Num (snd b)])) t) = Inr (num_bands t)"
  by (induction t) (auto simp: num_bands_def check_band_def nb_def)

lemma check_freq_bands_num: "check_freq_bands (num_dict t) = Inr (num_bands t)"
  by (simp add: num_dict_def check_bands_num)

lemma gather_bands_1d_num:
  "gather_bands_1d (Num b0, Num b1) (num_bands t) =
     Inr (map (\<lambda>(k, b). (k, nb b, Num ((fst b + snd b) / 2))) (filter (center_inside b0 b1) t))"
  by (induction t) (auto simp: num_bands_def nb_def py_or_def py_ge_def center_inside_def)

lemma gather_bands_2d_num:
  "gather_bands_2d (Num b0, Num b1) (num_bands t) = Inr g \<Longrightarrow>
     map snd g = map (nb \<circ> snd) (filter (ends_inside b0 b1) t)"
proof (induction t arbitrary: g)
  case Nil
  then show ?case by (simp add: num_bands_def)
next
  case (Cons kb t)
  obtain k b where kb: "kb = (k, b)" by (cases kb)
  show ?case
  proof (cases "ends_inside b0 b1 kb")
    case True
    with Cons.prems kb obtain i r where
      "gather_bands_2d (Num b0, Num b1) (num_bands t) = Inr r" "g = (i, nb b) # r"
      by (auto simp: num_bands_def nb_def py_or_def py_gt_def ends_inside_def ebind_Inr_iff)
    with Cons.IH [of r] True kb show ?thesis by simp
  next
    case False
    with Cons.prems kb have "gather_bands_2d (Num b0, Num b1) (num_bands t) = Inr g"
      by (auto simp: num_bands_def nb_def py_or_def py_gt_def ends_inside_def split: if_splits)
    with Cons.IH [of g] False show ?thesis by simp
  qed
qed

subsection \<open>The ranking\<close>

lemma mset_ranked:
  "mset (map f (rev (argsort (xs :: 'a :: linorder list)))) = mset (map f [0..<length xs])"
  by (simp add: argsort_def)

lemma freq_ranges_1d:
  assumes "length hist = length bands"
  shows "mset (map Freq_Range (ordered_bands_1d bands hist)) = mset bands"
proof -
  have "map Freq_Range (ordered_bands_1d bands hist) = map ((!) bands) (rev (argsort hist))"
    by (simp add: ordered_bands_1d_def)
  then have "mset (map Freq_Range (ordered_bands_1d bands hist)) = mset (map ((!) bands) [0..<length hist])"
    by (simp only: mset_ranked)
  with assms show ?thesis by (simp add: map_nth)
qed

subsection \<open>The histogram loops on numeric tables\<close>

lemma num_pts_count: "num_pts g = int (length (filter (\<lambda>x. x = 0) g))"
  by (induction g) auto

lemma in_band_num: "in_band (nb b) f = Inr (inside f b)"
  by (auto simp: in_band_def nb_def py_and_def inside_def)

lemma any_in_band_num: "any_in_band (map nb bs) f = Inr (list_ex (inside f) bs)"
  by (induction bs) (auto simp: in_band_num py_or_def)

lemma band_index_num: "band_index (map nb bs) f = Inr (owner bs f)"
  by (induction bs) (auto simp: in_band_num)

lemma owner_less: "owner bs f = Some i \<Longrightarrow> i < length bs"
  by (induction bs arbitrary: i) (auto split: if_splits)

lemma record_freq_num:
  "record_freq (Num b0, Num b1) (map_option (map nb) om) r =
     Inr (if channel r = 2 \<and> (case tfreq r of Finite f \<Rightarrow> b0 < f \<and> f < b1 \<and> \<not> list_ex (inside f) (omitted om) | _ \<Rightarrow> False)
          then Some (freq_of r) else None)"
  by (cases om; cases "tfreq r")
     (auto simp: record_freq_def py_or_def py_ge_def any_in_band_num omitted_def freq_of_def)

lemma hist_step_num:
  "hist_step (Num b0, Num b1) (map_option (map nb) om) (map nb bands) r hist =
     Inr (if contributes b0 b1 (omitted om) r
          then (case owner bands (freq_of r) of None \<Rightarrow> hist | Some i \<Rightarrow> hist[i := hist ! i + zeros r])
          else hist)"
  by (cases "gflg r")
     (auto simp: hist_step_def record_freq_num band_index_num contributes_def zeros_def num_pts_count
           split: option.splits)

lemma hist_step_nth:
  assumes "length hist = length bands" "i < length hist"
  shows "\<exists>h. hist_step (Num b0, Num b1) (map_option (map nb) om) (map nb bands) r hist = Inr h \<and>
           length h = length hist \<and> h ! i = hist ! i + credit b0 b1 (omitted om) bands r i"
  using assms
  by (auto simp: hist_step_num credit_def nth_list_update split: option.splits dest: owner_less)

lemma generate_hist_num:
  assumes "length hist = length bands"
  shows "\<exists>h. generate_hist (Num b0, Num b1) (map_option (map nb) om) (map nb bands) data hist = Inr h \<and>
           length h = length hist \<and>
           (\<forall>i<length hist. h ! i = hist ! i + (\<Sum>r\<leftarrow>data. credit b0 b1 (omitted om) bands r i))"
  using assms
proof (induction data arbitrary: hist)
  case Nil
  then show ?case by simp
next
  case (Cons r rs)
  let ?step = "hist_step (Num b0, Num b1) (map_option (map nb) om) (map nb bands) r hist"
  obtain h1 where h1: "?step = Inr h1" by (simp add: hist_step_num)
  have len1: "length h1 = length hist"
    using h1 by (auto simp: hist_step_num split: option.splits if_splits)
  have nth1: "h1 ! i = hist ! i + credit b0 b1 (omitted om) bands r i" if "i < length hist" for i
    using hist_step_nth [OF Cons.prems that, of b0 b1 om r] h1 by auto
  from Cons.IH [of h1] len1 Cons.prems obtain h where
    h: "generate_hist (Num b0, Num b1) (map_option (map nb) om) (map nb bands) rs h1 = Inr h"
       "length h = length h1"
       "\<forall>i<length h1. h ! i = h1 ! i + (\<Sum>r\<leftarrow>rs. credit b0 b1 (omitted om) bands r i)"
    by auto
  show ?case
    using h h1 len1 nth1 by (auto simp: algebra_simps)
qed

lemma generate_hist_counts:
  "generate_hist (Num b0, Num b1) (map_option (map nb) om) (map nb bands) data (replicate (length bands) 0)
     = Inr (counts b0 b1 (omitted om) bands data)"
proof -
  obtain h where h:
    "generate_hist (Num b0, Num b1) (map_option (map nb) om) (map nb bands) data (replicate (length bands) 0) = Inr h"
    "length h = length bands"
    "\<forall>i<length bands. h ! i = (replicate (length bands) (0::int)) ! i + (\<Sum>r\<leftarrow>data. credit b0 b1 (omitted om) bands r i)"
    using generate_hist_num [of "replicate (length bands) 0" bands b0 b1 om data] by auto
  have "h = counts b0 b1 (omitted om) bands data"
    using h(2,3) by (intro nth_equalityI) (auto simp: counts_def)
  with h(1) show ?thesis by simp
qed

lemma list_gt_num: "list_gt (nb x) (nb y) = Inr (fst y < fst x \<or> fst x = fst y \<and> snd y < snd x)"
  by (auto simp: list_gt_def nb_def py_gt_def)

lemma max_from_num: "\<exists>m. max_from (nb b) (map nb bs) = Inr (nb m)"
proof (induction bs arbitrary: b)
  case Nil
  show ?case by (intro exI [of _ b]) simp
next
  case (Cons x xs)
  show ?case
    using Cons.IH [of x] Cons.IH [of b] by (simp add: list_gt_num)
qed

lemma bar_width_num_Nil: "bar_width [] = Inl Builtin_ValueError"
  by (simp add: bar_width_def max_bands_def)

lemma bar_width_num_Cons: "bands \<noteq> [] \<Longrightarrow> \<exists>w. bar_width (map nb bands) = Inr w"
proof (cases bands)
  case Nil
  assume "bands \<noteq> []"
  with Nil show ?thesis by simp
next
  case (Cons b bs)
  obtain m where "max_from (nb b) (map nb bs) = Inr (nb m)"
    using max_from_num by blast
  with Cons show ?thesis by (simp add: bar_width_def max_bands_def nb_def)
qed

lemma gathered_bands_num:
  "fst \<circ> snd \<circ> (\<lambda>(k, b). (k, nb b, Num ((fst b + snd b) / 2))) = nb \<circ> snd"
  by (auto simp: fun_eq_iff)

lemma plot_freq_scan_hist_num:
  assumes bnd: "generate_boundary boundary (num_bands t) = Inr (Num b0, Num b1)"
    and rb: "remove_bands omit_bands (num_bands t) = Inr (map_option (map nb) om)"
  shows "plot_freq_scan_hist data (num_dict t) nrm boundary omit_bands txt =
           (if filter (center_inside b0 b1) t = [] then Inl Builtin_ValueError
            else ebind (title_dates_1d data) (\<lambda>td.
              Inr \<lparr>ordered_bands = ordered_bands_1d (map nb (map snd (filter (center_inside b0 b1) t)))
                      (counts b0 b1 (omitted om) (map snd (filter (center_inside b0 b1) t)) data),
                   plotted = normalize_hist nrm
                      (counts b0 b1 (omitted om) (map snd (filter (center_inside b0 b1) t)) data)\<rparr>))"
proof -
  let ?bands = "map snd (filter (center_inside b0 b1) t)"
  have gen: "generate_hist (Num b0, Num b1) (map_option (map nb) om) (map nb ?bands) data
               (replicate (length (filter (center_inside b0 b1) t)) 0) = Inr (counts b0 b1 (omitted om) ?bands data)"
    using generate_hist_counts [of b0 b1 om ?bands data] by simp
  show ?thesis
  proof (cases "filter (center_inside b0 b1) t = []")
    case True
    with gen show ?thesis
      by (simp add: plot_freq_scan_hist_def check_freq_bands_num bnd rb gather_bands_1d_num
            bar_width_num_Nil)
  next
    case False
    then obtain w where "bar_width (map nb ?bands) = Inr w"
      using bar_width_num_Cons [of ?bands] by auto
    with False gen show ?thesis
      by (simp add: plot_freq_scan_hist_def check_freq_bands_num bnd rb gather_bands_1d_num
            gathered_bands_num)
  qed
qed

lemma index_of_less: "index_of xs y = Some j \<Longrightarrow> j < length xs"
  by (induction xs arbitrary: j) (auto split: if_splits)

lemma sum_list_add_at:
  fixes xs :: "real list"
  shows "j < length xs \<Longrightarrow> sum_list (xs[j := xs ! j + v]) = sum_list xs + v"
proof (induction xs arbitrary: j)
  case Nil
  then show ?case by simp
next
  case (Cons x xs)
  then show ?case by (cases j) auto
qed

lemma hist2d_step_shape:
  assumes "hist2d_step (Num b0, Num b1) (map_option (map nb) om) (map nb bands) date_bin dates r (date, h)
             = Inr (date', h')"
  shows "(\<not> (contributes b0 b1 (omitted om) r \<and> owner bands (freq_of r) \<noteq> None) \<and> h' = h) \<or>
         (\<exists>bi j. contributes b0 b1 (omitted om) r \<and> owner bands (freq_of r) = Some bi \<and> j < length dates \<and>
            h' = h[bi := (h ! bi)[j := h ! bi ! j + real_of_int (zeros r)]])"
proof (cases "contributes b0 b1 (omitted om) r \<and> owner bands (freq_of r) \<noteq> None")
  case False
  with assms have "h' = h"
    by (auto simp: hist2d_step_def record_freq_num band_index_num contributes_def
          split: option.splits if_splits)
  with False show ?thesis by simp
next
  case True
  then obtain bi g where bi: "owner bands (freq_of r) = Some bi" and g: "gflg r = Some g"
    by (auto simp: contributes_def)
  from True have rf: "record_freq (Num b0, Num b1) (map_option (map nb) om) r = Inr (Some (freq_of r))"
    by (auto simp: record_freq_num contributes_def)
  from assms have "ebind (assign_date (Inr date) date_bin r date)
      (\<lambda>dt. case dt of None \<Rightarrow> Inl Builtin_UnboundLocalError
         | Some d \<Rightarrow> (case index_of dates d of None \<Rightarrow> Inl Builtin_ValueError
             | Some j \<Rightarrow> Inr (dt, h[bi := (h ! bi)[j := h ! bi ! j + real_of_int (num_pts g)]])))
      = Inr (date', h')"
    by (simp add: hist2d_step_def rf g band_index_num bi cong: option.case_cong)
  then obtain dt where dt: "(case dt of None \<Rightarrow> Inl Builtin_UnboundLocalError
         | Some d \<Rightarrow> (case index_of dates d of None \<Rightarrow> Inl Builtin_ValueError
             | Some j \<Rightarrow> Inr (dt, h[bi := (h ! bi)[j := h ! bi ! j + real_of_int (num_pts g)]])))
      = Inr (date', h')"
    unfolding ebind_Inr_iff by blast
  then obtain d where d: "dt = Some d" by (cases dt) simp_all
  with dt obtain j where "index_of dates d = Some j"
    and h': "h' = h[bi := (h ! bi)[j := h ! bi ! j + real_of_int (num_pts g)]]"
    by (cases "index_of dates d") simp_all
  then have "j < length dates" by (auto dest: index_of_less)
  moreover have "zeros r = num_pts g" by (simp add: zeros_def g num_pts_count)
  ultimately show ?thesis using True bi h' by auto
qed

lemma zeros_nonneg: "0 \<le> zeros r"
  by (simp add: zeros_def split: option.splits)

lemma hist2d_step_inv:
  assumes step: "hist2d_step (Num b0, Num b1) (map_option (map nb) om) (map nb bands) date_bin dates r (date, h)
             = Inr (date', h')"
    and len: "length h = length bands"
    and rows: "\<forall>row\<in>set h. length row = length dates"
  shows "length h' = length bands"
    and "\<forall>row\<in>set h'. length row = length dates"
    and "\<forall>i<length bands. sum_list (h' ! i) = sum_list (h ! i) + real_of_int (credit b0 b1 (omitted om) bands r i)"
    and "(\<forall>row\<in>set h. \<forall>x\<in>set row. 0 \<le> x) \<Longrightarrow> (\<forall>row\<in>set h'. \<forall>x\<in>set row. 0 \<le> x)"
proof -
  consider (same) "\<not> (contributes b0 b1 (omitted om) r \<and> owner bands (freq_of r) \<noteq> None)" "h' = h"
    | (upd) bi j where "contributes b0 b1 (omitted om) r" "owner bands (freq_of r) = Some bi"
        "j < length dates" "h' = h[bi := (h ! bi)[j := h ! bi ! j + real_of_int (zeros r)]]"
    using hist2d_step_shape [OF step] by blast
  note cases = this
  show "length h' = length bands"
    using len by (cases rule: cases) auto
  show "\<forall>row\<in>set h'. length row = length dates"
  proof (cases rule: cases)
    case same
    with rows show ?thesis by simp
  next
    case (upd bi j)
    have "bi < length h" using upd(2) len by (auto dest: owner_less)
    then have "length ((h ! bi)[j := h ! bi ! j + real_of_int (zeros r)]) = length dates"
      using rows by simp
    moreover have "set h' \<subseteq> insert ((h ! bi)[j := h ! bi ! j + real_of_int (zeros r)]) (set h)"
      unfolding upd(4) by (rule set_update_subset_insert)
    ultimately show ?thesis using rows by blast
  qed
  show "\<forall>i<length bands. sum_list (h' ! i) = sum_list (h ! i) + real_of_int (credit b0 b1 (omitted om) bands r i)"
  proof (cases rule: cases)
    case same
    then show ?thesis by (auto simp: credit_def)
  next
    case (upd bi j)
    have bi: "bi < length h" using upd(2) len by (auto dest: owner_less)
    then have "j < length (h ! bi)" using rows upd(3) by simp
    then have "sum_list ((h ! bi)[j := h ! bi ! j + real_of_int (zeros r)]) = sum_list (h ! bi) + real_of_int (zeros r)"
      by (rule sum_list_add_at)
    with upd bi len show ?thesis
      by (auto simp: credit_def nth_list_update)
  qed
  show "(\<forall>row\<in>set h'. \<forall>x\<in>set row. 0 \<le> x)" if nn: "\<forall>row\<in>set h. \<forall>x\<in>set row. 0 \<le> x"
  proof (cases rule: cases)
    case same
    with nn show ?thesis by simp
  next
    case (upd bi j)
    have bi: "bi < length h" using upd(2) len by (auto dest: owner_less)
    then have hb: "h ! bi \<in> set h" by simp
    have j: "j < length (h ! bi)" using rows upd(3) hb by simp
    have "\<forall>x\<in>set ((h ! bi)[j := h ! bi ! j + real_of_int (zeros r)]). 0 \<le> x"
    proof
      fix x assume "x \<in> set ((h ! bi)[j := h ! bi ! j + real_of_int (zeros r)])"
      then have "x = h ! bi ! j + real_of_int (zeros r) \<or> x \<in> set (h ! bi)"
        using set_update_subset_insert [of "h ! bi" j] by auto
      moreover have "0 \<le> h ! bi ! j" using nn hb j by simp
      ultimately show "0 \<le> x" using nn hb zeros_nonneg [of r] by auto
    qed
    moreover have "set h' \<subseteq> insert ((h ! bi)[j := h ! bi ! j + real_of_int (zeros r)]) (set h)"
      unfolding upd(4) by (rule set_update_subset_insert)
    ultimately show ?thesis using nn by blast
  qed
qed

lemma generate_hist2d_inv:
  assumes "generate_hist2d (Num b0, Num b1) (map_option (map nb) om) (map nb bands) date_bin dates data (date, h)
             = Inr (date', h')"
    and "length h = length bands"
    and "\<forall>row\<in>set h. length row = length dates"
  shows "length h' = length bands \<and> (\<forall>row\<in>set h'. length row = length dates) \<and>
         (\<forall>i<length bands. sum_list (h' ! i) =
             sum_list (h ! i) + real_of_int (\<Sum>r\<leftarrow>data. credit b0 b1 (omitted om) bands r i)) \<and>
         ((\<forall>row\<in>set h. \<forall>x\<in>set row. 0 \<le> x) \<longrightarrow> (\<forall>row\<in>set h'. \<forall>x\<in>set row. 0 \<le> x))"
  using assms
proof (induction data arbitrary: date h)
  case Nil
  then show ?case by simp
next
  case (Cons r rs)
  from Cons.prems(1) obtain d1 h1 where
    step: "hist2d_step (Num b0, Num b1) (map_option (map nb) om) (map nb bands) date_bin dates r (date, h) = Inr (d1, h1)"
    and rest: "generate_hist2d (Num b0, Num b1) (map_option (map nb) om) (map nb bands) date_bin dates rs (d1, h1) = Inr (date', h')"
    by (auto simp: ebind_Inr_iff)
  note inv1 = hist2d_step_inv [OF step Cons.prems(2) Cons.prems(3)]
  from Cons.IH [OF rest inv1(1) inv1(2)] inv1(3) inv1(4)
  show ?case by (auto simp: algebra_simps)
qed

subsection \<open>The check of the band table\<close>

lemma check_bands_reject:
  "\<not> list_all (\<lambda>kv. case snd kv of PyList xs \<Rightarrow> length xs = 2 | _ \<Rightarrow> False) kvs \<Longrightarrow>
     check_bands kvs = Inl (TypeError ''Invalid frequency band format'')"
proof (induction kvs)
  case Nil
  then show ?case by simp
next
  case (Cons kv kvs)
  obtain k v where kv: "kv = (k, v)" by (cases kv)
  show ?case
  proof (cases "check_band v")
    case (Inl e)
    then have "e = TypeError ''Invalid frequency band format''"
      by (auto simp: check_band_def split: bandval.splits if_splits)
    with Inl kv show ?thesis by simp
  next
    case (Inr b)
    then have "case v of PyList xs \<Rightarrow> length xs = 2 | _ \<Rightarrow> False"
      by (auto simp: check_band_def split: bandval.splits if_splits)
    with Cons.prems kv have "\<not> list_all (\<lambda>kv. case snd kv of PyList xs \<Rightarrow> length xs = 2 | _ \<Rightarrow> False) kvs"
      by simp
    from Cons.IH [OF this] Inr kv show ?thesis by simp
  qed
qed

lemma check_bands_accept:
  "list_all (\<lambda>kv. case snd kv of PyList xs \<Rightarrow> length xs = 2 | _ \<Rightarrow> False) kvs \<Longrightarrow>
     \<exists>fb. check_bands kvs = Inr fb"
proof (induction kvs)
  case Nil
  then show ?case by simp
next
  case (Cons kv kvs)
  obtain k v where kv: "kv = (k, v)" by (cases kv)
  from Cons obtain fb where "check_bands kvs = Inr fb" by auto
  moreover from Cons.prems kv obtain b where "check_band v = Inr b"
    by (auto simp: check_band_def split: bandval.splits)
  ultimately show ?case using kv by simp
qed

lemma check_freq_bands_reject:
  "\<not> two_element_lists fb \<Longrightarrow>
     check_freq_bands fb = Inl (TypeError (if fb = NotDict then ''Invalid frequency bands format''
                                            else ''Invalid frequency band format''))"
  by (cases fb) (auto simp: two_element_lists_def check_bands_reject)

subsection \<open>The 2D entry point on numeric tables\<close>

lemma plot_freq_scan_2d_hist_num:
  assumes bnd: "generate_boundary boundary (num_bands t) = Inr (Num b0, Num b1)"
    and rb: "remove_bands omit_bands (num_bands t) = Inr (map_option (map nb) om)"
    and ok: "plot_freq_scan_2d_hist data (num_dict t) date_bin nrm boundary omit_bands txt = Inr res"
  shows "\<exists>h ncols.
           length h = length (filter (ends_inside b0 b1) t) \<and>
           (\<forall>row\<in>set h. length row = ncols) \<and>
           (\<forall>row\<in>set h. \<forall>x\<in>set row. 0 \<le> x) \<and>
           (\<forall>i<length (filter (ends_inside b0 b1) t). sum_list (h ! i) =
               real_of_int (\<Sum>r\<leftarrow>data. credit b0 b1 (omitted om) (map snd (filter (ends_inside b0 b1) t)) r i)) \<and>
           ordered_bands res = ordered_bands_2d (map nb (map snd (filter (ends_inside b0 b1) t))) h \<and>
           plotted res = normalize_hist2d nrm ncols h"
proof -
  let ?bands = "map snd (filter (ends_inside b0 b1) t)"
  from ok obtain g ds st where
    g: "gather_bands_2d (Num b0, Num b1) (num_bands t) = Inr g"
    and gen: "generate_hist2d (Num b0, Num b1) (map_option (map nb) om) (map snd g) date_bin (snd ds) data
               (fst ds, replicate (length g) (replicate (length (snd ds)) 0)) = Inr st"
    and res: "res = \<lparr>ordered_bands = ordered_bands_2d (map snd g) (snd st),
                    plotted = normalize_hist2d nrm (length (snd ds)) (snd st)\<rparr>"
    unfolding plot_freq_scan_2d_hist_def check_freq_bands_num bnd rb ebind.simps ebind_Inr_iff
    by auto
  have bands: "map snd g = map nb ?bands"
    using gather_bands_2d_num [OF g] by simp
  then have len: "length g = length ?bands"
    using length_map by metis
  let ?h0 = "replicate (length g) (replicate (length (snd ds)) (0::real))"
  have gen': "generate_hist2d (Num b0, Num b1) (map_option (map nb) om) (map nb ?bands) date_bin (snd ds) data
               (fst ds, ?h0) = Inr (fst st, snd st)"
    using gen bands by simp
  have "length ?h0 = length ?bands" using len by simp
  moreover have "\<forall>row\<in>set ?h0. length row = length (snd ds)" by simp
  ultimately have inv: "length (snd st) = length ?bands \<and> (\<forall>row\<in>set (snd st). length row = length (snd ds)) \<and>
         (\<forall>i<length ?bands. sum_list (snd st ! i) =
             sum_list (?h0 ! i) + real_of_int (\<Sum>r\<leftarrow>data. credit b0 b1 (omitted om) ?bands r i)) \<and>
         ((\<forall>row\<in>set ?h0. \<forall>x\<in>set row. 0 \<le> x) \<longrightarrow> (\<forall>row\<in>set (snd st). \<forall>x\<in>set row. 0 \<le> x))"
    by (rule generate_hist2d_inv [OF gen'])
  have zero: "sum_list (?h0 ! i) = 0" if "i < length ?bands" for i
    using that len by (simp add: sum_list_replicate)
  have nn0: "\<forall>row\<in>set ?h0. \<forall>x\<in>set row. 0 \<le> x" by auto
  show ?thesis
  proof (intro exI [of _ "snd st"] exI [of _ "length (snd ds)"] conjI)
    show "length (snd st) = length (filter (ends_inside b0 b1) t)" using inv by simp
    show "\<forall>row\<in>set (snd st). length row = length (snd ds)" using inv by blast
    show "\<forall>row\<in>set (snd st). \<forall>x\<in>set row. 0 \<le> x" using inv nn0 by blast
    show "\<forall>i<length (filter (ends_inside b0 b1) t). sum_list (snd st ! i) =
               real_of_int (\<Sum>r\<leftarrow>data. credit b0 b1 (omitted om) ?bands r i)"
      using inv zero by simp
    show "ordered_bands res = ordered_bands_2d (map nb ?bands) (snd st)"
      using res bands by simp
    show "plotted res = normalize_hist2d nrm (length (snd ds)) (snd st)"
      using res by simp
  qed
qed

subsection \<open>Omitted intervals and the entry points on success\<close>

lemma map_of_num_bands: "map_of (num_bands t) k = map_option nb (map_of t k)"
  by (induction t) (auto simp: num_bands_def)

lemma lookup_bands_num:
  "lookup_bands (num_bands t) ids = Some rb \<Longrightarrow> \<exists>om. rb = map nb om"
proof (induction ids arbitrary: rb)
  case Nil
  then show ?case by simp
next
  case (Cons b bs)
  from Cons.prems obtain v r where v: "map_of (num_bands t) (KStr (str_of_ident b)) = Some v"
    and r: "lookup_bands (num_bands t) bs = Some r" and rb: "rb = v # r"
    by (auto split: option.splits)
  from v obtain x where "v = nb x" by (auto simp: map_of_num_bands)
  moreover from Cons.IH [OF r] obtain om where "r = map nb om" by blast
  ultimately have "rb = map nb (x # om)" using rb by simp
  then show ?case by blast
qed

lemma remove_bands_num:
  assumes "remove_bands omit_bands (num_bands t) = Inr rb"
  shows "\<exists>om. rb = map_option (map nb) om"
proof (cases omit_bands)
  case None
  with assms have "rb = map_option (map nb) None" by (simp add: remove_bands_def)
  then show ?thesis by blast
next
  case (Some a)
  with assms obtain bs where "lookup_bands (num_bands t) (omit_items a) = Some bs" "rb = Some bs"
    by (auto simp: remove_bands_def split: option.splits)
  moreover then obtain om where "bs = map nb om" using lookup_bands_num by blast
  ultimately have "rb = map_option (map nb) (Some om)" by simp
  then show ?thesis by blast
qed

lemma plot_freq_scan_hist_remove:
  assumes "generate_boundary boundary (num_bands t) = Inr bnd"
    and "plot_freq_scan_hist data (num_dict t) nrm boundary omit_bands txt = Inr res"
  shows "\<exists>om. remove_bands omit_bands (num_bands t) = Inr (map_option (map nb) om)"
proof -
  from assms obtain rb where "remove_bands omit_bands (num_bands t) = Inr rb"
    unfolding plot_freq_scan_hist_def check_freq_bands_num ebind.simps ebind_Inr_iff by auto
  with remove_bands_num [OF this] show ?thesis by auto
qed

lemma plot_freq_scan_2d_hist_remove:
  assumes "generate_boundary boundary (num_bands t) = Inr bnd"
    and "plot_freq_scan_2d_hist data (num_dict t) date_bin nrm boundary omit_bands txt = Inr res"
  shows "\<exists>om. remove_bands omit_bands (num_bands t) = Inr (map_option (map nb) om)"
proof -
  from assms obtain rb where "remove_bands omit_bands (num_bands t) = Inr rb"
    unfolding plot_freq_scan_2d_hist_def check_freq_bands_num ebind.simps ebind_Inr_iff by auto
  with remove_bands_num [OF this] show ?thesis by auto
qed

lemma plot_freq_scan_hist_num_Inr:
  assumes bnd: "generate_boundary boundary (num_bands t) = Inr (Num b0, Num b1)"
    and rb: "remove_bands omit_bands (num_bands t) = Inr (map_option (map nb) om)"
    and ok: "plot_freq_scan_hist data (num_dict t) nrm boundary omit_bands txt = Inr res"
  shows "res = \<lparr>ordered_bands = ordered_bands_1d (map nb (map snd (filter (center_inside b0 b1) t)))
                      (counts b0 b1 (omitted om) (map snd (filter (center_inside b0 b1) t)) data),
                plotted = normalize_hist nrm
                      (counts b0 b1 (omitted om) (map snd (filter (center_inside b0 b1) t)) data)\<rparr>"
  using ok unfolding plot_freq_scan_hist_num [OF bnd rb]
  by (auto simp: ebind_Inr_iff split: if_splits)

lemma length_counts: "length (counts b0 b1 om bands data) = length bands"
  by (simp add: counts_def)

lemma freq_ranges_2d:
  assumes "length h = length bands"
  shows "mset (map Freq_Range (ordered_bands_2d bands h)) = mset bands"
proof -
  have "map Freq_Range (ordered_bands_2d bands h) = map ((!) bands) (rev (argsort (band_sums h)))"
    by (simp add: ordered_bands_2d_def)
  then have "mset (map Freq_Range (ordered_bands_2d bands h)) = mset (map ((!) bands) [0..<length (band_sums h)])"
    by (simp only: mset_ranked)
  with assms show ?thesis by (simp add: map_nth band_sums_def)
qed

subsection \<open>Entries of the ranked list\<close>

lemma set_argsort: "set (argsort (xs :: 'a :: linorder list)) = {0..<length xs}"
  by (simp add: argsort_def)

lemma py_trunc_of_int: "py_trunc (real_of_int k) = k"
  by (simp add: py_trunc_def)

lemma ordered_bands_1d_entry:
  assumes "e \<in> set (ordered_bands_1d bands hist)"
  shows "nat (Band e) < length hist \<and> Count e = hist ! nat (Band e) \<and> Freq_Range e = bands ! nat (Band e)"
  using assms by (auto simp: ordered_bands_1d_def set_argsort)

lemma ordered_bands_2d_entry:
  assumes "e \<in> set (ordered_bands_2d bands h)"
  shows "nat (Band e) < length h \<and> Count e = py_trunc (sum_list (h ! nat (Band e))) \<and>
         Freq_Range e = bands ! nat (Band e)"
  using assms by (auto simp: ordered_bands_2d_def set_argsort band_sums_def)

lemma bands_1d_positions:
  "mset (map Band (ordered_bands_1d bands hist)) = mset (map int [0..<length hist])"
proof -
  have "map Band (ordered_bands_1d bands hist) = map int (rev (argsort hist))"
    by (simp add: ordered_bands_1d_def)
  then show ?thesis by (simp only: mset_ranked)
qed

lemma bands_2d_positions:
  "mset (map Band (ordered_bands_2d bands h)) = mset (map int [0..<length h])"
proof -
  have "map Band (ordered_bands_2d bands h) = map int (rev (argsort (band_sums h)))"
    by (simp add: ordered_bands_2d_def)
  then have "mset (map Band (ordered_bands_2d bands h)) = mset (map int [0..<length (band_sums h)])"
    by (simp only: mset_ranked)
  then show ?thesis by (simp add: band_sums_def)
qed

lemma counts_nth:
  "i < length bands \<Longrightarrow> counts b0 b1 om bands data ! i = (\<Sum>r\<leftarrow>data. credit b0 b1 om bands r i)"
  by (simp add: counts_def)

subsection \<open>The shape of the 2D histogram\<close>

lemma band_index_less: "band_index bands f = Inr (Some i) \<Longrightarrow> i < length bands"
proof (induction bands arbitrary: i)
  case Nil
  then show ?case by simp
next
  case (Cons b bs)
  from Cons.prems obtain c where c: "in_band b f = Inr c"
    by (auto simp: ebind_Inr_iff)
  show ?case
  proof (cases c)
    case True
    with Cons.prems c show ?thesis by simp
  next
    case False
    with Cons.prems c obtain r where "band_index bs f = Inr r" "map_option Suc r = Some i"
      by (auto simp: ebind_Inr_iff)
    then obtain i' where "band_index bs f = Inr (Some i')" "i = Suc i'" by (cases r) auto
    with Cons.IH [of i'] show ?thesis by simp
  qed
qed

lemma num_pts_nonneg: "0 \<le> num_pts g"
  by (induction g) auto

lemma hist2d_step_update:
  assumes "hist2d_step bnd rb bands date_bin dates r (date, h) = Inr (date', h')"
  shows "h' = h \<or> (\<exists>bi j v. bi < length bands \<and> j < length dates \<and> 0 \<le> v \<and>
            h' = h[bi := (h ! bi)[j := h ! bi ! j + v]])"
proof -
  from assms obtain fo where fo: "record_freq bnd rb r = Inr fo"
    and rest: "(case fo of None \<Rightarrow> Inr (date, h)
       | Some freq \<Rightarrow>
           (case gflg r of None \<Rightarrow> Inr (date, h)
            | Some g \<Rightarrow>
                ebind (band_index bands freq) (\<lambda>bi.
                  case bi of None \<Rightarrow> Inr (date, h)
                  | Some band_i \<Rightarrow>
                      ebind (assign_date (Inr date) date_bin r date) (\<lambda>dt.
                        case dt of None \<Rightarrow> Inl Builtin_UnboundLocalError
                        | Some d \<Rightarrow>
                            (case index_of dates d of None \<Rightarrow> Inl Builtin_ValueError
                             | Some date_i \<Rightarrow>
                                 Inr (dt, h[band_i := (h ! band_i)
                                         [date_i := h ! band_i ! date_i + real_of_int (num_pts g)]])))))) = Inr (date', h')"
    unfolding hist2d_step_def ebind_Inr_iff by (auto cong: option.case_cong)
  show ?thesis
  proof (cases fo)
    case None
    with rest show ?thesis by simp
  next
    case (Some freq)
    show ?thesis
    proof (cases "gflg r")
      case None
      with rest Some show ?thesis by simp
    next
      case g: (Some g)
      from rest Some g obtain bi where bi: "band_index bands freq = Inr bi"
        and rest2: "(case bi of None \<Rightarrow> Inr (date, h)
                  | Some band_i \<Rightarrow>
                      ebind (assign_date (Inr date) date_bin r date) (\<lambda>dt.
                        case dt of None \<Rightarrow> Inl Builtin_UnboundLocalError
                        | Some d \<Rightarrow>
                            (case index_of dates d of None \<Rightarrow> Inl Builtin_ValueError
                             | Some date_i \<Rightarrow>
                                 Inr (dt, h[band_i := (h ! band_i)
                                         [date_i := h ! band_i ! date_i + real_of_int (num_pts g)]])))) = Inr (date', h')"
        by (auto simp: ebind_Inr_iff)
      show ?thesis
      proof (cases bi)
        case None
        with rest2 show ?thesis by simp
      next
        case bs: (Some band_i)
        from rest2 bs obtain dt where
          dt: "(case dt of None \<Rightarrow> Inl Builtin_UnboundLocalError
                        | Some d \<Rightarrow>
                            (case index_of dates d of None \<Rightarrow> Inl Builtin_ValueError
                             | Some date_i \<Rightarrow>
                                 Inr (dt, h[band_i := (h ! band_i)
                                         [date_i := h ! band_i ! date_i + real_of_int (num_pts g)]]))) = Inr (date', h')"
          by (auto simp: ebind_Inr_iff)
        then obtain d where d: "dt = Some d" by (cases dt) simp_all
        with dt obtain j where j: "index_of dates d = Some j"
          and h': "h' = h[band_i := (h ! band_i)[j := h ! band_i ! j + real_of_int (num_pts g)]]"
          by (cases "index_of dates d") simp_all
        have "band_i < length bands" using bi bs band_index_less by blast
        moreover have "j < length dates" using j by (rule index_of_less)
        moreover have "0 \<le> real_of_int (num_pts g)" using num_pts_nonneg by simp
        ultimately show ?thesis using h' by blast
      qed
    qed
  qed
qed

lemma matrix_ok_update:
  assumes ok: "matrix_ok n m h" and bi: "bi < n" and j: "j < m" and v: "0 \<le> v"
  shows "matrix_ok n m (h[bi := (h ! bi)[j := h ! bi ! j + v]])"
proof -
  let ?row = "(h ! bi)[j := h ! bi ! j + v]"
  from ok bi have hb: "h ! bi \<in> set h" by (simp add: matrix_ok_def)
  with ok have rowok: "length (h ! bi) = m" "\<forall>x\<in>set (h ! bi). 0 \<le> x"
    by (auto simp: matrix_ok_def list_all_iff)
  have "0 \<le> h ! bi ! j" using rowok j by simp
  then have "\<forall>x\<in>set ?row. 0 \<le> x"
    using rowok v set_update_subset_insert [of "h ! bi" j "h ! bi ! j + v"] by auto
  then have new: "length ?row = m \<and> list_all (\<lambda>x. 0 \<le> x) ?row"
    using rowok by (simp add: list_all_iff)
  have "set (h[bi := ?row]) \<subseteq> insert ?row (set h)" by (rule set_update_subset_insert)
  with ok new show ?thesis
    by (auto simp: matrix_ok_def list_all_iff)
qed

lemma generate_hist2d_matrix_ok:
  assumes "generate_hist2d bnd rb bands date_bin dates data (date, h) = Inr (date', h')"
    and "matrix_ok (length bands) (length dates) h"
  shows "matrix_ok (length bands) (length dates) h'"
  using assms
proof (induction data arbitrary: date h)
  case Nil
  then show ?case by simp
next
  case (Cons r rs)
  from Cons.prems(1) obtain d1 h1 where
    step: "hist2d_step bnd rb bands date_bin dates r (date, h) = Inr (d1, h1)"
    and rest: "generate_hist2d bnd rb bands date_bin dates rs (d1, h1) = Inr (date', h')"
    by (auto simp: ebind_Inr_iff)
  from hist2d_step_update [OF step] Cons.prems(2) have "matrix_ok (length bands) (length dates) h1"
    by (auto intro: matrix_ok_update)
  with Cons.IH [OF rest] show ?case .
qed

lemma matrix_ok_zeros: "matrix_ok n m (replicate n (replicate m 0))"
  by (simp add: matrix_ok_def list_all_iff)

subsection \<open>Normalize Columns, cell by cell\<close>

lemma column_sum_other:
  "j \<noteq> c \<Longrightarrow> column_sum (normalize_column m c) j = column_sum m j"
  by (simp add: column_sum_def normalize_column_def o_def)

lemma length_normalize_column: "length (normalize_column m c) = length m"
  by (simp add: normalize_column_def)

lemma row_length_normalize_column:
  "i < length m \<Longrightarrow> length (normalize_column m c ! i) = length (m ! i)"
  by (simp add: normalize_column_def)

lemma nth_normalize_column:
  assumes "i < length m" "c < length (m ! i)"
  shows "normalize_column m c ! i ! j =
           (if j = c \<and> column_sum m c > 0 then m ! i ! j / column_sum m c else m ! i ! j)"
  using assms by (simp add: normalize_column_def nth_list_update)

lemma normalize_columns_nth:
  assumes "distinct cs" "i < length m" "\<forall>c\<in>set cs. c < length (m ! i)"
  shows "length (normalize_columns m cs) = length m \<and>
         length (normalize_columns m cs ! i) = length (m ! i) \<and>
         normalize_columns m cs ! i ! j =
           (if j \<in> set cs \<and> column_sum m j > 0 then m ! i ! j / column_sum m j else m ! i ! j)"
  using assms
proof (induction cs arbitrary: m)
  case Nil
  then show ?case by simp
next
  case (Cons c cs)
  let ?m = "normalize_column m c"
  have i: "i < length ?m" using Cons.prems(2) by (simp add: length_normalize_column)
  have len: "length (?m ! i) = length (m ! i)"
    using Cons.prems(2) by (rule row_length_normalize_column)
  have cs: "\<forall>c\<in>set cs. c < length (?m ! i)" using Cons.prems(3) len by simp
  have d: "distinct cs" "c \<notin> set cs" using Cons.prems(1) by simp_all
  note ih = Cons.IH [OF d(1) i cs]
  have c: "c < length (m ! i)" using Cons.prems(3) by simp
  note nth = nth_normalize_column [OF Cons.prems(2) c, of j]
  show ?case
  proof (cases "j = c")
    case True
    with d have "j \<notin> set cs" by simp
    with ih nth True len show ?thesis by (simp add: length_normalize_column)
  next
    case False
    then have "column_sum ?m j = column_sum m j" by (rule column_sum_other)
    with ih nth False len show ?thesis by (simp add: length_normalize_column)
  qed
qed

lemma column_zero:
  assumes ok: "matrix_ok n ncols h" and i: "i < length h" and j: "j < ncols"
    and z: "\<not> column_sum h j > 0"
  shows "column_sum h j = 0 \<and> h ! i ! j = 0"
proof -
  define xs where "xs = map (\<lambda>row. row ! j) h"
  have nn: "\<And>x. x \<in> set xs \<Longrightarrow> 0 \<le> x"
    using ok j by (auto simp: xs_def matrix_ok_def list_all_iff)
  have cs: "column_sum h j = sum_list xs" by (simp add: column_sum_def xs_def)
  have "0 \<le> sum_list xs" using nn by (rule sum_list_nonneg)
  with z cs have zero: "sum_list xs = 0" by simp
  have "sum_list xs = 0 \<longleftrightarrow> (\<forall>x\<in>set xs. x = 0)"
    using nn by (rule sum_list_nonneg_eq_0_iff)
  with zero have all: "\<forall>x\<in>set xs. x = 0" by simp
  have "h ! i ! j \<in> set xs" using i by (auto simp: xs_def)
  with all zero cs show ?thesis by simp
qed

lemma normalize_hist2d_cell:
  assumes ok: "matrix_ok n ncols h" and i: "i < length h" and j: "j < length (h ! i)"
  shows "length (normalize_hist2d True ncols h) = length h \<and>
         length (normalize_hist2d True ncols h ! i) = length (h ! i) \<and>
         normalize_hist2d True ncols h ! i ! j =
           (if column_sum h j = 0 then h ! i ! j else h ! i ! j / column_sum h j) \<and>
         (column_sum h j = 0 \<longrightarrow> h ! i ! j = 0)"
proof -
  have row: "length (h ! i) = ncols" using ok i by (auto simp: matrix_ok_def list_all_iff)
  have "\<forall>c\<in>set [0..<ncols]. c < length (h ! i)" using row by simp
  from normalize_columns_nth [OF _ i this, of j] have
    n: "length (normalize_columns h [0..<ncols]) = length h"
       "length (normalize_columns h [0..<ncols] ! i) = length (h ! i)"
       "normalize_columns h [0..<ncols] ! i ! j =
           (if j \<in> set [0..<ncols] \<and> column_sum h j > 0 then h ! i ! j / column_sum h j else h ! i ! j)"
    by simp_all
  have jn: "j < ncols" using j row by simp
  have z: "column_sum h j = 0 \<and> h ! i ! j = 0" if "\<not> column_sum h j > 0"
    using column_zero [OF ok i jn that] .
  show ?thesis
  proof (cases "column_sum h j > 0")
    case True
    with n jn show ?thesis by (simp add: normalize_hist2d_def)
  next
    case False
    with z n jn show ?thesis by (simp add: normalize_hist2d_def)
  qed
qed

subsection \<open>The entry points on success, for any table\<close>

lemma plot_freq_scan_hist_Inr:
  assumes "plot_freq_scan_hist data fb nrm boundary omit_bands txt = Inr res"
  shows "\<exists>bands hist. res = \<lparr>ordered_bands = ordered_bands_1d bands hist, plotted = normalize_hist nrm hist\<rparr> \<and>
           (\<forall>nrm'. plot_freq_scan_hist data fb nrm' boundary omit_bands txt =
                     Inr \<lparr>ordered_bands = ordered_bands_1d bands hist, plotted = normalize_hist nrm' hist\<rparr>)"
proof -
  from assms obtain t bnd g rb hist w td where
    s: "check_freq_bands fb = Inr t" "generate_boundary boundary t = Inr bnd"
       "gather_bands_1d bnd t = Inr g" "remove_bands omit_bands t = Inr rb"
       "generate_hist bnd rb (map (fst \<circ> snd) g) data (replicate (length g) 0) = Inr hist"
       "bar_width (map (fst \<circ> snd) g) = Inr w" "title_dates_1d data = Inr td"
    and res: "res = \<lparr>ordered_bands = ordered_bands_1d (map (fst \<circ> snd) g) hist,
                    plotted = normalize_hist nrm hist\<rparr>"
    by (auto simp: plot_freq_scan_hist_def ebind_Inr_iff)
  have "\<forall>nrm'. plot_freq_scan_hist data fb nrm' boundary omit_bands txt =
          Inr \<lparr>ordered_bands = ordered_bands_1d (map (fst \<circ> snd) g) hist,
               plotted = normalize_hist nrm' hist\<rparr>"
    using s by (simp add: plot_freq_scan_hist_def)
  with res show ?thesis by blast
qed

lemma plot_freq_scan_2d_hist_Inr:
  assumes "plot_freq_scan_2d_hist data fb date_bin nrm boundary omit_bands txt = Inr res"
  shows "\<exists>bands ncols h. matrix_ok (length bands) ncols h \<and>
           res = \<lparr>ordered_bands = ordered_bands_2d bands h, plotted = normalize_hist2d nrm ncols h\<rparr> \<and>
           (\<forall>nrm'. plot_freq_scan_2d_hist data fb date_bin nrm' boundary omit_bands txt =
                     Inr \<lparr>ordered_bands = ordered_bands_2d bands h, plotted = normalize_hist2d nrm' ncols h\<rparr>)"
proof -
  from assms obtain t bnd g rb ds st u where
    s: "check_freq_bands fb = Inr t" "generate_boundary boundary t = Inr bnd"
       "gather_bands_2d bnd t = Inr g" "remove_bands omit_bands t = Inr rb"
       "gather_dates date_bin data (None, []) = Inr ds"
       "generate_hist2d bnd rb (map snd g) date_bin (snd ds) data
              (fst ds, replicate (length g) (replicate (length (snd ds)) 0)) = Inr st"
       "plot_titles_2d date_bin data txt (ordered_bands_2d (map snd g) (snd st)) = Inr u"
    and res: "res = \<lparr>ordered_bands = ordered_bands_2d (map snd g) (snd st),
            plotted = normalize_hist2d nrm (length (snd ds)) (snd st)\<rparr>"
    by (auto simp: plot_freq_scan_2d_hist_def ebind_Inr_iff)
  have "generate_hist2d bnd rb (map snd g) date_bin (snd ds) data
              (fst ds, replicate (length (map snd g)) (replicate (length (snd ds)) 0)) = Inr (fst st, snd st)"
    using s(6) by simp
  then have ok: "matrix_ok (length (map snd g)) (length (snd ds)) (snd st)"
    by (rule generate_hist2d_matrix_ok) (rule matrix_ok_zeros)
  have "\<forall>nrm'. plot_freq_scan_2d_hist data fb date_bin nrm' boundary omit_bands txt =
                     Inr \<lparr>ordered_bands = ordered_bands_2d (map snd g) (snd st),
                          plotted = normalize_hist2d nrm' (length (snd ds)) (snd st)\<rparr>"
    using s by (simp add: plot_freq_scan_2d_hist_def)
  with ok res show ?thesis by blast
qed

lemma length_normalize_columns: "length (normalize_columns m cs) = length m"
  by (induction cs arbitrary: m) (auto simp: length_normalize_column)

lemma row_length_normalize_columns:
  "i < length m \<Longrightarrow> length (normalize_columns m cs ! i) = length (m ! i)"
  by (induction cs arbitrary: m) (auto simp: length_normalize_column row_length_normalize_column)

lemma normalize_hist_True:
  "normalize_hist True hist =
     (if sum_list (normalize_hist False hist) = 0 then normalize_hist False hist
      else map (\<lambda>c. c / sum_list (normalize_hist False hist)) (normalize_hist False hist))"
proof -
  have "sum_list (map real_of_int hist) = real_of_int (sum_list hist)"
    by (induction hist) auto
  then show ?thesis by (simp add: normalize_hist_def o_def)
qed

subsection \<open>Records of other channels\<close>






subsection \<open>Omitted identifiers and the errors of the later sections\<close>

lemma list_lt_num: "list_lt (nb x) (nb y) = Inr (fst x < fst y \<or> fst x = fst y \<and> snd x < snd y)"
  by (auto simp: list_lt_def nb_def)

lemma min_from_num: "\<exists>m. min_from (nb b) (map nb bs) = Inr (nb m)"
proof (induction bs arbitrary: b)
  case Nil
  show ?case by (intro exI [of _ b]) simp
next
  case (Cons x xs)
  show ?case
    using Cons.IH [of x] Cons.IH [of b] by (simp add: list_lt_num)
qed

lemma min_elems_num: "min_elems (nb m) = Inr (Num (if snd m < fst m then snd m else fst m))"
  by (simp add: min_elems_def nb_def)

lemma max_elems_num: "max_elems (nb m) = Inr (Num (if fst m < snd m then snd m else fst m))"
  by (simp add: max_elems_def nb_def py_gt_def)

lemma generate_boundary_num:
  assumes "t \<noteq> [] \<or> bo \<noteq> None"
  shows "\<exists>b0 b1. generate_boundary (map_option nb bo) (num_bands t) = Inr (Num b0, Num b1)"
proof (cases bo)
  case (Some b)
  then show ?thesis by (simp add: generate_boundary_def nb_def)
next
  case None
  with assms obtain kb t' where t: "t = kb # t'" by (cases t) auto
  obtain mn where mn: "min_from (nb (snd kb)) (map nb (map snd t')) = Inr (nb mn)"
    using min_from_num by blast
  obtain mx where mx: "max_from (nb (snd kb)) (map nb (map snd t')) = Inr (nb mx)"
    using max_from_num by blast
  have m: "map snd (num_bands t) = nb (snd kb) # map nb (map snd t')"
    by (simp add: t num_bands_def split_def o_def)
  have "generate_boundary None (num_bands t) =
          Inr (Num (if snd mn < fst mn then snd mn else fst mn), Num (if fst mx < snd mx then snd mx else fst mx))"
    unfolding generate_boundary_def m min_bands_def max_bands_def
    by (simp only: list.case option.case mn mx ebind.simps min_elems_num max_elems_num)
  with None show ?thesis by auto
qed

lemma map_of_int_keyed: "int_keyed t \<Longrightarrow> map_of (num_bands t) (KStr s) = None"
  by (induction t) (auto simp: int_keyed_def num_bands_def split: key.splits)

lemma remove_bands_int_keyed:
  assumes "int_keyed t" "omit_items a \<noteq> []"
  shows "remove_bands (Some a) (num_bands t) = Inl omit_error"
proof -
  from assms(2) obtain b bs where "omit_items a = b # bs" by (cases "omit_items a") auto
  then have "lookup_bands (num_bands t) (omit_items a) = None"
    using map_of_int_keyed [OF assms(1)] by simp
  then show ?thesis by (simp add: remove_bands_def omit_error_def)
qed

lemma gather_bands_2d_int_keyed:
  "int_keyed t \<Longrightarrow> \<exists>g. gather_bands_2d (Num b0, Num b1) (num_bands t) = Inr g"
proof (induction t)
  case Nil
  show ?case by (simp add: num_bands_def)
next
  case (Cons kb t)
  then obtain g where g: "gather_bands_2d (Num b0, Num b1) (num_bands t) = Inr g"
    by (auto simp: int_keyed_def)
  obtain k b where kb: "kb = (k, b)" by (cases kb)
  from Cons.prems kb obtain i where "k = KInt i"
    by (cases k) (auto simp: int_keyed_def)
  with g kb show ?case
    by (auto simp: num_bands_def nb_def py_or_def py_gt_def int_of_key_def)
qed

lemma py_int_error: "py_int s = Inl e \<Longrightarrow> e = Builtin_ValueError"
  by (auto simp: py_int_def split: list.splits option.splits if_splits)

lemma skip_2d_num:
  "py_or (py_lt (fst (nb b)) (Num b0)) (py_gt (snd (nb b)) (Num b1)) = Inr (fst b < b0 \<or> b1 < snd b)"
  by (auto simp: nb_def py_or_def py_gt_def)

lemma gather_bands_2d_num_error:
  "gather_bands_2d (Num b0, Num b1) (num_bands t) = Inl e \<Longrightarrow> e = Builtin_ValueError"
proof (induction t)
  case Nil
  then show ?case by (simp add: num_bands_def)
next
  case (Cons kb t)
  obtain k b where kb: "kb = (k, b)" by (cases kb)
  have nbs: "num_bands (kb # t) = (k, nb b) # num_bands t" by (simp add: kb num_bands_def)
  show ?case
  proof (cases "fst b < b0 \<or> b1 < snd b")
    case True
    with Cons.prems have "gather_bands_2d (Num b0, Num b1) (num_bands t) = Inl e"
      by (simp add: nbs skip_2d_num)
    with Cons.IH show ?thesis by simp
  next
    case False
    then have step: "gather_bands_2d (Num b0, Num b1) (num_bands (kb # t)) =
        ebind (int_of_key k) (\<lambda>i. ebind (gather_bands_2d (Num b0, Num b1) (num_bands t)) (\<lambda>r. Inr ((i, nb b) # r)))"
      by (simp add: nbs skip_2d_num)
    show ?thesis
    proof (cases "int_of_key k")
      case (Inl e')
      then have "e' = Builtin_ValueError"
        by (auto simp: int_of_key_def split: key.splits dest: py_int_error)
      with Inl step Cons.prems show ?thesis by simp
    next
      case (Inr i)
      with step Cons.prems have "gather_bands_2d (Num b0, Num b1) (num_bands t) = Inl e"
        by (cases "gather_bands_2d (Num b0, Num b1) (num_bands t)") auto
      with Cons.IH show ?thesis by simp
    qed
  qed
qed

lemma datetime_error: "datetime y m d h = Inl e \<Longrightarrow> e = Builtin_ValueError"
  by (simp add: datetime_def split: if_splits)

lemma assign_date_error:
  assumes "assign_date otherwise date_bin r date = Inl e"
  shows "e = Builtin_ValueError \<or> otherwise = Inl e"
proof -
  have *: "ebind (datetime y m d h) (\<lambda>d. Inr (Some d)) = Inl e \<Longrightarrow> e = Builtin_ValueError" for y m d h
    by (cases "datetime y m d h") (auto dest: datetime_error)
  from assms show ?thesis
    unfolding assign_date_def by (auto split: if_splits dest: *)
qed

lemma gather_dates_error: "gather_dates date_bin data st = Inl e \<Longrightarrow> e \<noteq> TypeError m"
proof (induction data arbitrary: st)
  case Nil
  then show ?case by simp
next
  case (Cons r rs)
  show ?case
  proof (cases "channel r \<noteq> 2")
    case True
    with Cons show ?thesis by simp
  next
    case False
    let ?a = "assign_date (Inl (ValueError (''Invalid date bin type: '' @ date_bin))) date_bin r (fst st)"
    show ?thesis
    proof (cases ?a)
      case (Inl e')
      with Cons.prems False have "e = e'" by simp
      moreover from assign_date_error [OF Inl] have "e' \<noteq> TypeError m" by auto
      ultimately show ?thesis by simp
    next
      case (Inr date)
      show ?thesis
      proof (cases date)
        case None
        with Inr Cons.prems False show ?thesis by auto
      next
        case (Some d)
        with Inr Cons.prems False
        have "gather_dates date_bin rs (date, if d \<in> set (snd st) then snd st else snd st @ [d]) = Inl e"
          by simp
        with Cons.IH show ?thesis by blast
      qed
    qed
  qed
qed

lemma hist2d_step_num_error:
  assumes "hist2d_step (Num b0, Num b1) (map_option (map nb) om) (map nb bands) date_bin dates r st = Inl e"
  shows "e \<noteq> TypeError m"
proof -
  let ?a = "assign_date (Inr (fst st)) date_bin r (fst st)"
  have a: "e' \<noteq> TypeError m" if "?a = Inl e'" for e'
    using assign_date_error [OF that] by auto
  show ?thesis
  proof (cases ?a)
    case (Inl e')
    with assms a [of e'] show ?thesis
      by (auto simp: hist2d_step_def record_freq_num band_index_num split: if_splits option.splits)
  next
    case (Inr date)
    with assms show ?thesis
      by (auto simp: hist2d_step_def record_freq_num band_index_num split: if_splits option.splits)
  qed
qed

lemma generate_hist2d_num_error:
  "generate_hist2d (Num b0, Num b1) (map_option (map nb) om) (map nb bands) date_bin dates data st = Inl e
     \<Longrightarrow> e \<noteq> TypeError m"
proof (induction data arbitrary: st)
  case Nil
  then show ?case by simp
next
  case (Cons r rs)
  show ?case
  proof (cases "hist2d_step (Num b0, Num b1) (map_option (map nb) om) (map nb bands) date_bin dates r st")
    case (Inl e')
    with Cons.prems have "e = e'" by simp
    with hist2d_step_num_error [OF Inl] show ?thesis by simp
  next
    case (Inr st')
    with Cons.prems Cons.IH [of st'] show ?thesis by simp
  qed
qed

lemma datetime_pair_error:
  assumes "ebind (datetime y mo d h) (\<lambda>s. ebind (datetime y' mo' d' h') (\<lambda>e. Inr (f s e))) = Inl err"
  shows "err = Builtin_ValueError"
  using assms
  by (cases "datetime y mo d h"; cases "datetime y' mo' d' h'") (auto dest: datetime_error)

lemma format_dates_error:
  assumes "format_dates date_bin data = Inl e"
  shows "e = Builtin_ValueError \<or> e = Builtin_IndexError"
proof -
  consider (y) "date_bin = ''year''" | (m) "date_bin = ''month''" | (d) "date_bin = ''day''"
    | (h) "date_bin = ''hour''"
    | (o) "date_bin \<noteq> ''year''" "date_bin \<noteq> ''month''" "date_bin \<noteq> ''day''" "date_bin \<noteq> ''hour''"
    by blast
  then show ?thesis
  proof cases
    case y
    show ?thesis
    proof (cases "data = []")
      case True
      with assms y show ?thesis by (simp add: format_dates_def)
    next
      case False
      with assms y have "ebind (datetime (time_yr (hd data)) 1 1 0) (\<lambda>s.
              ebind (datetime (time_yr (last data)) 1 1 0) (\<lambda>e. Inr (Some (s, e)))) = Inl e"
        by (simp add: format_dates_def)
      then show ?thesis using datetime_pair_error [where f = "\<lambda>s e. Some (s, e)"] by blast
    qed
  next
    case m
    show ?thesis
    proof (cases "data = []")
      case True
      with assms m show ?thesis by (simp add: format_dates_def)
    next
      case False
      with assms m have "ebind (datetime (time_yr (hd data)) (time_mo (hd data)) 1 0) (\<lambda>s.
              ebind (datetime (time_yr (last data)) (time_mo (last data)) 1 0) (\<lambda>e. Inr (Some (s, e)))) = Inl e"
        by (simp add: format_dates_def)
      then show ?thesis using datetime_pair_error [where f = "\<lambda>s e. Some (s, e)"] by blast
    qed
  next
    case d
    show ?thesis
    proof (cases "data = []")
      case True
      with assms d show ?thesis by (simp add: format_dates_def)
    next
      case False
      with assms d have "ebind (datetime (time_yr (hd data)) (time_mo (hd data)) (time_dy (hd data)) 0) (\<lambda>s.
              ebind (datetime (time_yr (last data)) (time_mo (last data)) (time_dy (last data)) 0) (\<lambda>e.
                Inr (Some (s, e)))) = Inl e"
        by (simp add: format_dates_def)
      then show ?thesis using datetime_pair_error [where f = "\<lambda>s e. Some (s, e)"] by blast
    qed
  next
    case h
    show ?thesis
    proof (cases "data = []")
      case True
      with assms h show ?thesis by (simp add: format_dates_def)
    next
      case False
      with assms h have "ebind (datetime (time_yr (hd data)) (time_mo (hd data)) 1 0) (\<lambda>s.
              ebind (datetime (time_yr (last data)) (time_mo (last data)) 1 0) (\<lambda>e. Inr (Some (s, e)))) = Inl e"
        by (simp add: format_dates_def)
      then show ?thesis using datetime_pair_error [where f = "\<lambda>s e. Some (s, e)"] by blast
    qed
  next
    case o
    with assms show ?thesis by (simp add: format_dates_def)
  qed
qed

lemma plot_titles_2d_error: "plot_titles_2d date_bin data txt ordered = Inl e \<Longrightarrow> e \<noteq> TypeError m"
proof (cases "format_dates date_bin data")
  case (Inl e')
  assume "plot_titles_2d date_bin data txt ordered = Inl e"
  with Inl have "e = e'" by (simp add: plot_titles_2d_def)
  with format_dates_error [OF Inl] show ?thesis by auto
next
  case (Inr sd)
  assume "plot_titles_2d date_bin data txt ordered = Inl e"
  with Inr show ?thesis by (auto simp: plot_titles_2d_def split: if_splits)
qed

lemma title_dates_1d_error: "title_dates_1d data = Inl e \<Longrightarrow> e \<noteq> TypeError m"
proof (cases "data = []")
  case True
  assume "title_dates_1d data = Inl e"
  with True show ?thesis by (simp add: title_dates_1d_def)
next
  case False
  assume "title_dates_1d data = Inl e"
  with False have "ebind (datetime (time_yr (hd data)) (time_mo (hd data)) 1 0) (\<lambda>s.
           ebind (datetime (time_yr (last data)) (time_mo (last data)) 1 0) (\<lambda>e. Inr (s, e))) = Inl e"
    by (simp add: title_dates_1d_def)
  then have "e = Builtin_ValueError" using datetime_pair_error [where f = Pair] by blast
  then show ?thesis by simp
qed

section \<open>The claims\<close>

text \<open>
  Claim C1. For a numeric band table, the active boundary \<open>(b0, b1)\<close> and the omitted
  intervals \<open>om\<close>, whenever an entry point returns, its list has one entry for every
  position of the filtered band list, and the count of the entry at position \<open>i\<close> is the
  sum over all records of \<open>credit\<close>: a record adds the number of positions with
  \<^verbatim>\<open>gflg == 0\<close> if its channel is 2, its \<^verbatim>\<open>tfreq\<close> is neither NaN nor infinite and
  lies strictly between \<open>b0\<close> and \<open>b1\<close> and in no omitted interval (bounds included), it
  has a \<^verbatim>\<open>gflg\<close>, and \<open>i\<close> is the first position of the filtered band list whose closed
  interval holds \<^verbatim>\<open>tfreq\<close>; otherwise it adds nothing. In the 2D case the count is the
  total of the band's row.
\<close>

theorem sample_extractor_contract:
  assumes bnd: "generate_boundary boundary (num_bands t) = Inr (Num b0, Num b1)"
    and rb: "remove_bands omit_bands (num_bands t) = Inr (map_option (map nb) om)"
  shows "(plot_freq_scan_hist data (num_dict t) nrm boundary omit_bands txt = Inr res1 \<longrightarrow>
            mset (map Band (ordered_bands res1)) = mset (map int [0..<length (filter (center_inside b0 b1) t)]) \<and>
            (\<forall>e\<in>set (ordered_bands res1).
               Count e = (\<Sum>r\<leftarrow>data. credit b0 b1 (omitted om)
                            (map snd (filter (center_inside b0 b1) t)) r (nat (Band e))))) \<and>
         (plot_freq_scan_2d_hist data (num_dict t) date_bin nrm boundary omit_bands txt = Inr res2 \<longrightarrow>
            mset (map Band (ordered_bands res2)) = mset (map int [0..<length (filter (ends_inside b0 b1) t)]) \<and>
            (\<forall>e\<in>set (ordered_bands res2).
               Count e = (\<Sum>r\<leftarrow>data. credit b0 b1 (omitted om)
                            (map snd (filter (ends_inside b0 b1) t)) r (nat (Band e)))))"
proof (intro conjI impI ballI)
  assume ok: "plot_freq_scan_hist data (num_dict t) nrm boundary omit_bands txt = Inr res1"
  let ?bands = "map snd (filter (center_inside b0 b1) t)"
  let ?H = "counts b0 b1 (omitted om) ?bands data"
  have res: "ordered_bands res1 = ordered_bands_1d (map nb ?bands) ?H"
    using plot_freq_scan_hist_num_Inr [OF bnd rb ok] by simp
  show "mset (map Band (ordered_bands res1)) = mset (map int [0..<length (filter (center_inside b0 b1) t)])"
    unfolding res bands_1d_positions by (simp add: length_counts)
  fix e assume "e \<in> set (ordered_bands res1)"
  then have "nat (Band e) < length ?H" "Count e = ?H ! nat (Band e)"
    using ordered_bands_1d_entry [of e "map nb ?bands" ?H] res by simp_all
  then show "Count e = (\<Sum>r\<leftarrow>data. credit b0 b1 (omitted om) ?bands r (nat (Band e)))"
    by (simp add: length_counts counts_nth)
next
  assume ok: "plot_freq_scan_2d_hist data (num_dict t) date_bin nrm boundary omit_bands txt = Inr res2"
  let ?bands = "map snd (filter (ends_inside b0 b1) t)"
  from plot_freq_scan_2d_hist_num [OF bnd rb ok] obtain h where
    len: "length h = length (filter (ends_inside b0 b1) t)"
    and sums: "\<forall>i<length (filter (ends_inside b0 b1) t). sum_list (h ! i) =
               real_of_int (\<Sum>r\<leftarrow>data. credit b0 b1 (omitted om) ?bands r i)"
    and res: "ordered_bands res2 = ordered_bands_2d (map nb ?bands) h"
    by blast
  show "mset (map Band (ordered_bands res2)) = mset (map int [0..<length (filter (ends_inside b0 b1) t)])"
    unfolding res bands_2d_positions by (simp add: len)
  fix e assume "e \<in> set (ordered_bands res2)"
  then have "nat (Band e) < length h" "Count e = py_trunc (sum_list (h ! nat (Band e)))"
    using ordered_bands_2d_entry [of e "map nb ?bands" h] res by simp_all
  then show "Count e = (\<Sum>r\<leftarrow>data. credit b0 b1 (omitted om) ?bands r (nat (Band e)))"
    using sums len by (simp add: py_trunc_of_int)
qed

theorem sample_extractor_contract_witness:
  "generate_boundary None (num_bands ex_table) = Inr (Num 8000, Num 14000) \<and>
   remove_bands (Some (OmitInt 2)) (num_bands ex_table) = Inr (map_option (map nb) (Some [(12000, 14000)])) \<and>
   plot_freq_scan_hist ex_data (num_dict ex_table) False None (Some (OmitInt 2)) True =
     Inr \<lparr>ordered_bands =
            [\<lparr>Band = 0, Freq_Range = (Num 8000, Num 10000), Count = 5\<rparr>,
             \<lparr>Band = 1, Freq_Range = (Num 10000, Num 12000), Count = 1\<rparr>,
             \<lparr>Band = 2, Freq_Range = (Num 12000, Num 14000), Count = 0\<rparr>],
          plotted = [5, 1, 0]\<rparr> \<and>
   plot_freq_scan_2d_hist ex_data (num_dict ex_table) ''hour'' False None (Some (OmitInt 2)) True =
     Inr \<lparr>ordered_bands =
            [\<lparr>Band = 0, Freq_Range = (Num 8000, Num 10000), Count = 5\<rparr>,
             \<lparr>Band = 1, Freq_Range = (Num 10000, Num 12000), Count = 1\<rparr>,
             \<lparr>Band = 2, Freq_Range = (Num 12000, Num 14000), Count = 0\<rparr>],
          plotted = [[5], [1], [0]]\<rparr> \<and>
   (\<Sum>r\<leftarrow>ex_data. credit 8000 14000 (omitted (Some [(12000, 14000)]))
        (map snd (filter (center_inside 8000 14000) ex_table)) r 0) = 5 \<and>
   (\<Sum>r\<leftarrow>ex_data. credit 8000 14000 (omitted (Some [(12000, 14000)]))
        (map snd (filter (ends_inside 8000 14000) ex_table)) r 1) = 1"
proof -
  let ?r1 = "\<lparr>ordered_bands =
            [\<lparr>Band = 0, Freq_Range = (Num 8000, Num 10000), Count = 5\<rparr>,
             \<lparr>Band = 1, Freq_Range = (Num 10000, Num 12000), Count = 1\<rparr>,
             \<lparr>Band = 2, Freq_Range = (Num 12000, Num 14000), Count = 0\<rparr>],
          plotted = [5, 1, 0::real]\<rparr>"
  let ?r2 = "\<lparr>ordered_bands =
            [\<lparr>Band = 0, Freq_Range = (Num 8000, Num 10000), Count = 5\<rparr>,
             \<lparr>Band = 1, Freq_Range = (Num 10000, Num 12000), Count = 1\<rparr>,
             \<lparr>Band = 2, Freq_Range = (Num 12000, Num 14000), Count = 0\<rparr>],
          plotted = [[5], [1], [0::real]]\<rparr>"
  have bnd: "generate_boundary None (num_bands ex_table) = Inr (Num 8000, Num 14000)"
    by code_simp
  have rb: "remove_bands (Some (OmitInt 2)) (num_bands ex_table) = Inr (map_option (map nb) (Some [(12000, 14000)]))"
    by code_simp
  have r1: "plot_freq_scan_hist ex_data (num_dict ex_table) False None (Some (OmitInt 2)) True = Inr ?r1"
    by code_simp
  have r2: "plot_freq_scan_2d_hist ex_data (num_dict ex_table) ''hour'' False None (Some (OmitInt 2)) True = Inr ?r2"
    by code_simp
  note w = sample_extractor_contract [OF bnd rb, of ex_data False True ?r1 "''hour''" ?r2]
  note w1 = w [THEN conjunct1, THEN mp, OF r1, THEN conjunct2]
  note w2 = w [THEN conjunct2, THEN mp, OF r2, THEN conjunct2]
  have c1: "(\<Sum>r\<leftarrow>ex_data. credit 8000 14000 (omitted (Some [(12000, 14000)]))
        (map snd (filter (center_inside 8000 14000) ex_table)) r 0) = 5"
    using w1 [THEN bspec, of "\<lparr>Band = 0, Freq_Range = (Num 8000, Num 10000), Count = 5\<rparr>"] by simp
  have c2: "(\<Sum>r\<leftarrow>ex_data. credit 8000 14000 (omitted (Some [(12000, 14000)]))
        (map snd (filter (ends_inside 8000 14000) ex_table)) r 1) = 1"
    using w2 [THEN bspec, of "\<lparr>Band = 1, Freq_Range = (Num 10000, Num 12000), Count = 1\<rparr>"] by simp
  from bnd rb r1 r2 c1 c2 show ?thesis by blast
qed

text \<open>
  Claim C2 (the default boundary is the least low end and the greatest high end of the
  table). \<^verbatim>\<open>max(max(freq_bands.values()))\<close> takes the greatest element of the
  lexicographically greatest band, which is not the greatest high end when a band with a
  smaller low end reaches higher. For the table \<^verbatim>\<open>{'0': [8000, 12000], '1': [9000, 10000]}\<close>
  the derived boundary is \<open>(8000, 10000)\<close>, not \<open>(8000, 12000)\<close>, and a record at
  11000 kHz, inside band \<^verbatim>\<open>'0'\<close>, is ignored by both entry points.
\<close>

theorem default_boundary_nested_bands:
  "generate_boundary None
     (num_bands [(KStr ''0'', (8000, 12000)), (KStr ''1'', (9000, 10000))]) = Inr (Num 8000, Num 10000) \<and>
   plot_freq_scan_hist
     [\<lparr>channel = 2, tfreq = Finite 11000, gflg = Some [0, 0], time_yr = 2024, time_mo = 5, time_dy = 17, time_hr = 14\<rparr>]
     (num_dict [(KStr ''0'', (8000, 12000)), (KStr ''1'', (9000, 10000))]) False None None True
   = Inr \<lparr>ordered_bands = [\<lparr>Band = 0, Freq_Range = (Num 9000, Num 10000), Count = 0\<rparr>], plotted = [0]\<rparr> \<and>
   plot_freq_scan_2d_hist
     [\<lparr>channel = 2, tfreq = Finite 11000, gflg = Some [0, 0], time_yr = 2024, time_mo = 5, time_dy = 17, time_hr = 14\<rparr>]
     (num_dict [(KStr ''0'', (8000, 12000)), (KStr ''1'', (9000, 10000))]) ''hour'' False None None True
   = Inr \<lparr>ordered_bands = [\<lparr>Band = 0, Freq_Range = (Num 9000, Num 10000), Count = 0\<rparr>], plotted = [[0]]\<rparr>"
  by code_simp

text \<open>
  Claim C3 (an omitted band is left out of the counting and of the returned list). The
  Remove Bands section only collects the omitted intervals; the list \<^verbatim>\<open>bands\<close> the
  ranking runs over is not changed. With band 1 omitted, both entry points still return
  an entry for the interval \<open>[10000, 12000]\<close>.
\<close>

theorem omitted_band_still_ranked:
  "plot_freq_scan_hist
     [ex_record 2 (Finite 13000) (Some [0, 0]), ex_record 2 (Finite 9000) (Some [0])]
     (num_dict ex_table) False None (Some (OmitList [IInt 1])) True
   = Inr \<lparr>ordered_bands =
        [\<lparr>Band = 2, Freq_Range = (Num 12000, Num 14000), Count = 2\<rparr>,
         \<lparr>Band = 0, Freq_Range = (Num 8000, Num 10000), Count = 1\<rparr>,
         \<lparr>Band = 1, Freq_Range = (Num 10000, Num 12000), Count = 0\<rparr>],
        plotted = [1, 0, 2]\<rparr> \<and>
   plot_freq_scan_2d_hist
     [ex_record 2 (Finite 13000) (Some [0, 0]), ex_record 2 (Finite 9000) (Some [0])]
     (num_dict ex_table) ''hour'' False None (Some (OmitList [IInt 1])) True
   = Inr \<lparr>ordered_bands =
        [\<lparr>Band = 2, Freq_Range = (Num 12000, Num 14000), Count = 2\<rparr>,
         \<lparr>Band = 0, Freq_Range = (Num 8000, Num 10000), Count = 1\<rparr>,
         \<lparr>Band = 1, Freq_Range = (Num 10000, Num 12000), Count = 0\<rparr>],
        plotted = [[1], [0], [2]]\<rparr>"
  by code_simp

text \<open>
  Claim C4 (with \<^verbatim>\<open>date_bin = 'hour'\<close> a record at an odd hour is dropped). At an odd
  hour the chain assigns nothing to \<^verbatim>\<open>date\<close>, and the code goes on with the value of
  an earlier iteration: the two points of a record at hour 13 that follows a record at
  hour 14 are added to the bucket of hour 14, and a record at hour 13 that comes first
  ends the call with an UnboundLocalError.
\<close>

theorem odd_hour_not_dropped:
  "plot_freq_scan_2d_hist
     [\<lparr>channel = 2, tfreq = Finite 9000, gflg = Some [0], time_yr = 2024, time_mo = 5, time_dy = 17, time_hr = 14\<rparr>,
      \<lparr>channel = 2, tfreq = Finite 9000, gflg = Some [0, 0], time_yr = 2024, time_mo = 5, time_dy = 17, time_hr = 13\<rparr>]
     (num_dict [(KStr ''0'', (8000, 10000))]) ''hour'' False None None True
   = Inr \<lparr>ordered_bands = [\<lparr>Band = 0, Freq_Range = (Num 8000, Num 10000), Count = 3\<rparr>],
          plotted = [[3]]\<rparr> \<and>
   plot_freq_scan_2d_hist
     [\<lparr>channel = 2, tfreq = Finite 9000, gflg = Some [0, 0], time_yr = 2024, time_mo = 5, time_dy = 17, time_hr = 13\<rparr>]
     (num_dict [(KStr ''0'', (8000, 10000))]) ''hour'' False None None True
   = Inl Builtin_UnboundLocalError"
  by code_simp

text \<open>
  Claim C5 (the returned list is in descending order of count and each entry carries the
  band's key, range and count). \<^verbatim>\<open>'Band'\<close> is the position of the band in the
  filtered list, not its key: with the boundary \<open>(10000, 14000)\<close> the band with key
  \<^verbatim>\<open>'2'\<close> is returned as \<open>Band = 1\<close> and the band with key \<^verbatim>\<open>'1'\<close> as \<open>Band = 0\<close>.
\<close>

theorem band_is_position_not_key:
  "plot_freq_scan_hist
     [\<lparr>channel = 2, tfreq = Finite 13000, gflg = Some [0], time_yr = 2024, time_mo = 5, time_dy = 17, time_hr = 14\<rparr>]
     (num_dict [(KStr ''0'', (8000, 10000)), (KStr ''1'', (10000, 12000)), (KStr ''2'', (12000, 14000))])
     False (Some (Num 10000, Num 14000)) None True
   = Inr \<lparr>ordered_bands =
        [\<lparr>Band = 1, Freq_Range = (Num 12000, Num 14000), Count = 1\<rparr>,
         \<lparr>Band = 0, Freq_Range = (Num 10000, Num 12000), Count = 0\<rparr>],
        plotted = [0, 1]\<rparr> \<and>
   plot_freq_scan_2d_hist
     [\<lparr>channel = 2, tfreq = Finite 13000, gflg = Some [0], time_yr = 2024, time_mo = 5, time_dy = 17, time_hr = 14\<rparr>]
     (num_dict [(KStr ''0'', (8000, 10000)), (KStr ''1'', (10000, 12000)), (KStr ''2'', (12000, 14000))])
     ''hour'' False (Some (Num 10000, Num 14000)) None True
   = Inr \<lparr>ordered_bands =
        [\<lparr>Band = 1, Freq_Range = (Num 12000, Num 14000), Count = 1\<rparr>,
         \<lparr>Band = 0, Freq_Range = (Num 10000, Num 12000), Count = 0\<rparr>],
        plotted = [[0], [1]]\<rparr>"
  by code_simp




text \<open>
  Claim C7. For a numeric band table and the active boundary \<open>(b0, b1)\<close> (the one
  supplied, or the default one), \<^verbatim>\<open>plot_freq_scan_hist\<close> retains exactly the bands
  whose centre \<open>(low + high) / 2\<close> lies strictly between \<open>b0\<close> and \<open>b1\<close>, and
  \<^verbatim>\<open>plot_freq_scan_2d_hist\<close> exactly the bands with \<open>b0 \<le> low\<close> and \<open>high \<le> b1\<close>:
  whenever a call returns, the frequency ranges of the returned entries are the bands
  that pass the filter of that entry point, each once; and the Gather Bands sections
  compute these filters, in table order.
\<close>

theorem band_filter_policies:
  assumes bnd: "generate_boundary boundary (num_bands t) = Inr (Num b0, Num b1)"
  shows "(plot_freq_scan_hist data (num_dict t) nrm boundary omit_bands txt = Inr res1 \<longrightarrow>
            mset (map Freq_Range (ordered_bands res1)) = mset (map (nb \<circ> snd) (filter (center_inside b0 b1) t))) \<and>
         (plot_freq_scan_2d_hist data (num_dict t) date_bin nrm boundary omit_bands txt = Inr res2 \<longrightarrow>
            mset (map Freq_Range (ordered_bands res2)) = mset (map (nb \<circ> snd) (filter (ends_inside b0 b1) t))) \<and>
         gather_bands_1d (Num b0, Num b1) (num_bands t) =
            Inr (map (\<lambda>(k, b). (k, nb b, Num ((fst b + snd b) / 2))) (filter (center_inside b0 b1) t)) \<and>
         (\<forall>g. gather_bands_2d (Num b0, Num b1) (num_bands t) = Inr g \<longrightarrow>
            map snd g = map (nb \<circ> snd) (filter (ends_inside b0 b1) t))"
proof (intro conjI impI allI)
  assume ok: "plot_freq_scan_hist data (num_dict t) nrm boundary omit_bands txt = Inr res1"
  from plot_freq_scan_hist_remove [OF bnd ok] obtain om where
    rb: "remove_bands omit_bands (num_bands t) = Inr (map_option (map nb) om)" by blast
  let ?B = "map nb (map snd (filter (center_inside b0 b1) t))"
  let ?H = "counts b0 b1 (omitted om) (map snd (filter (center_inside b0 b1) t)) data"
  have "ordered_bands res1 = ordered_bands_1d ?B ?H"
    using plot_freq_scan_hist_num_Inr [OF bnd rb ok] by simp
  moreover have "mset (map Freq_Range (ordered_bands_1d ?B ?H)) = mset ?B"
    by (rule freq_ranges_1d) (simp add: length_counts)
  ultimately show "mset (map Freq_Range (ordered_bands res1)) = mset (map (nb \<circ> snd) (filter (center_inside b0 b1) t))"
    by (simp del: mset_map)
next
  assume ok: "plot_freq_scan_2d_hist data (num_dict t) date_bin nrm boundary omit_bands txt = Inr res2"
  from plot_freq_scan_2d_hist_remove [OF bnd ok] obtain om where
    rb: "remove_bands omit_bands (num_bands t) = Inr (map_option (map nb) om)" by blast
  let ?B = "map nb (map snd (filter (ends_inside b0 b1) t))"
  from plot_freq_scan_2d_hist_num [OF bnd rb ok] obtain h where
    h: "length h = length (filter (ends_inside b0 b1) t)"
    and "ordered_bands res2 = ordered_bands_2d ?B h"
    by blast
  moreover have "mset (map Freq_Range (ordered_bands_2d ?B h)) = mset ?B"
    by (rule freq_ranges_2d) (simp add: h)
  ultimately show "mset (map Freq_Range (ordered_bands res2)) = mset (map (nb \<circ> snd) (filter (ends_inside b0 b1) t))"
    by (simp del: mset_map)
next
  show "gather_bands_1d (Num b0, Num b1) (num_bands t) =
            Inr (map (\<lambda>(k, b). (k, nb b, Num ((fst b + snd b) / 2))) (filter (center_inside b0 b1) t))"
    by (rule gather_bands_1d_num)
next
  fix g assume "gather_bands_2d (Num b0, Num b1) (num_bands t) = Inr g"
  then show "map snd g = map (nb \<circ> snd) (filter (ends_inside b0 b1) t)"
    by (rule gather_bands_2d_num)
qed

theorem band_filter_policies_witness:
  "generate_boundary (Some (Num 8500, Num 12500))
     (num_bands [(KStr ''0'', (8000, 10000)), (KStr ''1'', (10000, 12000)), (KStr ''2'', (12000, 14000))])
     = Inr (Num 8500, Num 12500) \<and>
   plot_freq_scan_hist
     [\<lparr>channel = 2, tfreq = Finite 11000, gflg = Some [0], time_yr = 2024, time_mo = 5, time_dy = 17, time_hr = 14\<rparr>]
     (num_dict [(KStr ''0'', (8000, 10000)), (KStr ''1'', (10000, 12000)), (KStr ''2'', (12000, 14000))])
     False (Some (Num 8500, Num 12500)) None True
     = Inr \<lparr>ordered_bands = [\<lparr>Band = 1, Freq_Range = (Num 10000, Num 12000), Count = 1\<rparr>,
                              \<lparr>Band = 0, Freq_Range = (Num 8000, Num 10000), Count = 0\<rparr>],
            plotted = [0, 1]\<rparr> \<and>
   mset [(Num 10000, Num 12000), (Num 8000, Num 10000)] = mset [(Num 8000, Num 10000), (Num 10000, Num 12000)] \<and>
   plot_freq_scan_2d_hist
     [\<lparr>channel = 2, tfreq = Finite 11000, gflg = Some [0], time_yr = 2024, time_mo = 5, time_dy = 17, time_hr = 14\<rparr>]
     (num_dict [(KStr ''0'', (8000, 10000)), (KStr ''1'', (10000, 12000)), (KStr ''2'', (12000, 14000))])
     ''hour'' False (Some (Num 8500, Num 12500)) None True
     = Inr \<lparr>ordered_bands = [\<lparr>Band = 0, Freq_Range = (Num 10000, Num 12000), Count = 1\<rparr>],
            plotted = [[1]]\<rparr> \<and>
   map (nb \<circ> snd) (filter (center_inside 8500 12500)
       [(KStr ''0'', (8000, 10000)), (KStr ''1'', (10000, 12000)), (KStr ''2'', (12000, 14000))])
     = [(Num 8000, Num 10000), (Num 10000, Num 12000)] \<and>
   map (nb \<circ> snd) (filter (ends_inside 8500 12500)
       [(KStr ''0'', (8000, 10000)), (KStr ''1'', (10000, 12000)), (KStr ''2'', (12000, 14000))])
     = [(Num 10000, Num 12000)]"
proof -
  let ?t = "[(KStr ''0'', (8000::real, 10000::real)), (KStr ''1'', (10000, 12000)), (KStr ''2'', (12000, 14000))]"
  let ?d = "[\<lparr>channel = 2, tfreq = Finite 11000, gflg = Some [0], time_yr = 2024, time_mo = 5, time_dy = 17, time_hr = 14\<rparr>]"
  let ?r1 = "\<lparr>ordered_bands = [\<lparr>Band = 1, Freq_Range = (Num 10000, Num 12000), Count = 1\<rparr>,
                              \<lparr>Band = 0, Freq_Range = (Num 8000, Num 10000), Count = 0\<rparr>],
            plotted = [0, 1::real]\<rparr>"
  let ?r2 = "\<lparr>ordered_bands = [\<lparr>Band = 0, Freq_Range = (Num 10000, Num 12000), Count = 1\<rparr>],
            plotted = [[1::real]]\<rparr>"
  have bnd: "generate_boundary (Some (Num 8500, Num 12500)) (num_bands ?t) = Inr (Num 8500, Num 12500)"
    by (simp add: generate_boundary_def)
  have r1: "plot_freq_scan_hist ?d (num_dict ?t) False (Some (Num 8500, Num 12500)) None True = Inr ?r1"
    by code_simp
  have r2: "plot_freq_scan_2d_hist ?d (num_dict ?t) ''hour'' False (Some (Num 8500, Num 12500)) None True = Inr ?r2"
    by code_simp
  have f1: "map (nb \<circ> snd) (filter (center_inside 8500 12500) ?t) = [(Num 8000, Num 10000), (Num 10000, Num 12000)]"
    by (simp add: center_inside_def nb_def)
  have f2: "map (nb \<circ> snd) (filter (ends_inside 8500 12500) ?t) = [(Num 10000, Num 12000)]"
    by (simp add: ends_inside_def nb_def)
  note w = band_filter_policies [OF bnd, of ?d False None True ?r1 "''hour''" ?r2, THEN conjunct1, THEN mp, OF r1]
  have "mset [(Num 10000, Num 12000), (Num 8000, Num 10000)] = mset [(Num 8000, Num 10000), (Num 10000, Num 12000)]"
    using w unfolding f1 by simp
  with bnd r1 r2 f1 f2 show ?thesis by blast
qed

text \<open>
  Claim C8. Whenever a call with \<^verbatim>\<open>normalize = True\<close> returns, the same call with
  \<^verbatim>\<open>normalize = False\<close> returns the same list and the raw histogram \<open>raw\<close>, and the
  normalized one is derived from it: in the 1D case every bin is divided by the total of
  all bins, unless the total is zero, when the raw counts stay; in the 2D case every cell
  is divided by the sum of its column, unless that sum is zero, when the cell stays as it
  is, and is zero.
\<close>

theorem normalization_contract:
  "(plot_freq_scan_hist data fb True boundary omit_bands txt = Inr res1 \<longrightarrow>
      (\<exists>raw. plot_freq_scan_hist data fb False boundary omit_bands txt = Inr (res1\<lparr>plotted := raw\<rparr>) \<and>
         plotted res1 = (if sum_list raw = 0 then raw else map (\<lambda>c. c / sum_list raw) raw))) \<and>
   (plot_freq_scan_2d_hist data fb date_bin True boundary omit_bands txt = Inr res2 \<longrightarrow>
      (\<exists>raw. plot_freq_scan_2d_hist data fb date_bin False boundary omit_bands txt = Inr (res2\<lparr>plotted := raw\<rparr>) \<and>
         length (plotted res2) = length raw \<and>
         (\<forall>i<length raw. length (plotted res2 ! i) = length (raw ! i) \<and>
            (\<forall>j<length (raw ! i).
               plotted res2 ! i ! j =
                 (if column_sum raw j = 0 then raw ! i ! j else raw ! i ! j / column_sum raw j) \<and>
               (column_sum raw j = 0 \<longrightarrow> raw ! i ! j = 0)))))"
proof (intro conjI impI)
  assume "plot_freq_scan_hist data fb True boundary omit_bands txt = Inr res1"
  from plot_freq_scan_hist_Inr [OF this] obtain bands hist where
    res: "res1 = \<lparr>ordered_bands = ordered_bands_1d bands hist, plotted = normalize_hist True hist\<rparr>"
    and other: "plot_freq_scan_hist data fb False boundary omit_bands txt =
                  Inr \<lparr>ordered_bands = ordered_bands_1d bands hist, plotted = normalize_hist False hist\<rparr>"
    by blast
  let ?raw = "normalize_hist False hist"
  have "plot_freq_scan_hist data fb False boundary omit_bands txt = Inr (res1\<lparr>plotted := ?raw\<rparr>)"
    using res other by simp
  moreover have "plotted res1 = (if sum_list ?raw = 0 then ?raw else map (\<lambda>c. c / sum_list ?raw) ?raw)"
    using res normalize_hist_True [of hist] by simp
  ultimately show "\<exists>raw. plot_freq_scan_hist data fb False boundary omit_bands txt = Inr (res1\<lparr>plotted := raw\<rparr>) \<and>
         plotted res1 = (if sum_list raw = 0 then raw else map (\<lambda>c. c / sum_list raw) raw)"
    by blast
next
  assume "plot_freq_scan_2d_hist data fb date_bin True boundary omit_bands txt = Inr res2"
  from plot_freq_scan_2d_hist_Inr [OF this] obtain bands ncols h where
    ok: "matrix_ok (length bands) ncols h"
    and res: "res2 = \<lparr>ordered_bands = ordered_bands_2d bands h, plotted = normalize_hist2d True ncols h\<rparr>"
    and other: "plot_freq_scan_2d_hist data fb date_bin False boundary omit_bands txt =
                  Inr \<lparr>ordered_bands = ordered_bands_2d bands h, plotted = normalize_hist2d False ncols h\<rparr>"
    by blast
  have raw: "normalize_hist2d False ncols h = h" by (simp add: normalize_hist2d_def)
  have a: "plot_freq_scan_2d_hist data fb date_bin False boundary omit_bands txt = Inr (res2\<lparr>plotted := h\<rparr>)"
    using res other raw by simp
  have p: "plotted res2 = normalize_hist2d True ncols h" using res by simp
  have b: "length (plotted res2) = length h"
    unfolding p by (simp add: normalize_hist2d_def length_normalize_columns)
  have c: "length (plotted res2 ! i) = length (h ! i) \<and>
            (\<forall>j<length (h ! i).
               plotted res2 ! i ! j =
                 (if column_sum h j = 0 then h ! i ! j else h ! i ! j / column_sum h j) \<and>
               (column_sum h j = 0 \<longrightarrow> h ! i ! j = 0))" if i: "i < length h" for i
  proof (intro conjI allI impI)
    show "length (plotted res2 ! i) = length (h ! i)"
      unfolding p by (simp add: normalize_hist2d_def row_length_normalize_columns i)
  next
    fix j assume j: "j < length (h ! i)"
    from normalize_hist2d_cell [OF ok i j]
    show "plotted res2 ! i ! j = (if column_sum h j = 0 then h ! i ! j else h ! i ! j / column_sum h j)"
      unfolding p by blast
  next
    fix j assume j: "j < length (h ! i)" and z: "column_sum h j = 0"
    from normalize_hist2d_cell [OF ok i j] z show "h ! i ! j = 0" by blast
  qed
  from a b c show "\<exists>raw. plot_freq_scan_2d_hist data fb date_bin False boundary omit_bands txt = Inr (res2\<lparr>plotted := raw\<rparr>) \<and>
         length (plotted res2) = length raw \<and>
         (\<forall>i<length raw. length (plotted res2 ! i) = length (raw ! i) \<and>
            (\<forall>j<length (raw ! i).
               plotted res2 ! i ! j =
                 (if column_sum raw j = 0 then raw ! i ! j else raw ! i ! j / column_sum raw j) \<and>
               (column_sum raw j = 0 \<longrightarrow> raw ! i ! j = 0)))"
    by blast
qed

theorem normalization_contract_witness:
  "plot_freq_scan_hist
     [ex_record 2 (Finite 9000) (Some [0, 0, 0]), ex_record 2 (Finite 11000) (Some [0]),
      (ex_record 2 NaN (Some [0]))\<lparr>time_hr := 16\<rparr>]
     (num_dict [(KStr ''0'', (8000, 10000)), (KStr ''1'', (10000, 12000))]) True None None True
     = Inr \<lparr>ordered_bands = [\<lparr>Band = 0, Freq_Range = (Num 8000, Num 10000), Count = 3\<rparr>,
                              \<lparr>Band = 1, Freq_Range = (Num 10000, Num 12000), Count = 1\<rparr>],
            plotted = [3 / 4, 1 / 4]\<rparr> \<and>
   [3 / 4, 1 / 4] = map (\<lambda>c. c / sum_list [3, 1]) [3, 1 :: real] \<and>
   plot_freq_scan_2d_hist
     [ex_record 2 (Finite 9000) (Some [0, 0, 0]), ex_record 2 (Finite 11000) (Some [0]),
      (ex_record 2 NaN (Some [0]))\<lparr>time_hr := 16\<rparr>]
     (num_dict [(KStr ''0'', (8000, 10000)), (KStr ''1'', (10000, 12000))]) ''hour'' True None None True
     = Inr \<lparr>ordered_bands = [\<lparr>Band = 0, Freq_Range = (Num 8000, Num 10000), Count = 3\<rparr>,
                              \<lparr>Band = 1, Freq_Range = (Num 10000, Num 12000), Count = 1\<rparr>],
            plotted = [[3 / 4, 0], [1 / 4, 0]]\<rparr> \<and>
   [[3 / 4, 0], [1 / 4, 0 :: real]] ! 1 ! 0 = [[3, 0], [1, 0]] ! 1 ! 0 / column_sum [[3, 0], [1, 0]] 0 \<and>
   column_sum [[3, 0], [1, 0]] 1 = 0 \<and>
   [[3 / 4, 0], [1 / 4, 0 :: real]] ! 1 ! 1 = [[3, 0], [1, 0]] ! 1 ! 1"
proof -
  let ?d2 = "[ex_record 2 (Finite 9000) (Some [0, 0, 0]), ex_record 2 (Finite 11000) (Some [0]),
      (ex_record 2 NaN (Some [0]))\<lparr>time_hr := 16\<rparr>]"
  let ?t = "num_dict [(KStr ''0'', (8000, 10000)), (KStr ''1'', (10000, 12000))]"
  let ?ob = "[\<lparr>Band = 0, Freq_Range = (Num 8000, Num 10000), Count = 3\<rparr>,
              \<lparr>Band = 1, Freq_Range = (Num 10000, Num 12000), Count = 1\<rparr>]"
  let ?r1 = "\<lparr>ordered_bands = ?ob, plotted = [3 / 4, 1 / 4 :: real]\<rparr>"
  let ?r2 = "\<lparr>ordered_bands = ?ob, plotted = [[3 / 4, 0], [1 / 4, 0 :: real]]\<rparr>"
  have t1: "plot_freq_scan_hist ?d2 ?t True None None True = Inr ?r1" by code_simp
  have f1: "plot_freq_scan_hist ?d2 ?t False None None True = Inr \<lparr>ordered_bands = ?ob, plotted = [3, 1]\<rparr>"
    by code_simp
  have t2: "plot_freq_scan_2d_hist ?d2 ?t ''hour'' True None None True = Inr ?r2" by code_simp
  have f2: "plot_freq_scan_2d_hist ?d2 ?t ''hour'' False None None True
              = Inr \<lparr>ordered_bands = ?ob, plotted = [[3, 0], [1, 0]]\<rparr>"
    by code_simp
  note w = normalization_contract [of ?d2 ?t None None True ?r1 "''hour''" ?r2]
  from w [THEN conjunct1, THEN mp, OF t1] obtain raw1 where
    "plot_freq_scan_hist ?d2 ?t False None None True = Inr (?r1\<lparr>plotted := raw1\<rparr>)"
    and p1: "plotted ?r1 = (if sum_list raw1 = 0 then raw1 else map (\<lambda>c. c / sum_list raw1) raw1)"
    by blast
  with f1 have "raw1 = [3, 1]" by simp
  with p1 have c1: "[3 / 4, 1 / 4] = map (\<lambda>c. c / sum_list [3, 1]) [3, 1 :: real]" by simp
  from w [THEN conjunct2, THEN mp, OF t2] obtain raw2 where
    "plot_freq_scan_2d_hist ?d2 ?t ''hour'' False None None True = Inr (?r2\<lparr>plotted := raw2\<rparr>)"
    and p2: "\<forall>i<length raw2. length (plotted ?r2 ! i) = length (raw2 ! i) \<and>
            (\<forall>j<length (raw2 ! i).
               plotted ?r2 ! i ! j =
                 (if column_sum raw2 j = 0 then raw2 ! i ! j else raw2 ! i ! j / column_sum raw2 j) \<and>
               (column_sum raw2 j = 0 \<longrightarrow> raw2 ! i ! j = 0))"
    by blast
  with f2 have raw2: "raw2 = [[3, 0], [1, 0]]" by simp
  have cs0: "column_sum [[3, 0], [1, 0]] 0 = 4" and cs1: "column_sum [[3, 0], [1, 0]] 1 = 0"
    by (simp_all add: column_sum_def)
  from p2 [unfolded raw2, THEN spec, of 1] have row:
     "\<forall>j<length ([[3, 0], [1, 0 :: real]] ! 1).
               plotted ?r2 ! 1 ! j =
                 (if column_sum [[3, 0], [1, 0]] j = 0 then [[3, 0], [1, 0]] ! 1 ! j
                  else [[3, 0], [1, 0]] ! 1 ! j / column_sum [[3, 0], [1, 0]] j) \<and>
               (column_sum [[3, 0], [1, 0]] j = 0 \<longrightarrow> [[3, 0], [1, 0 :: real]] ! 1 ! j = 0)"
    by simp
  from row [THEN spec, of 0] cs0
  have c2: "[[3 / 4, 0], [1 / 4, 0 :: real]] ! 1 ! 0 = [[3, 0], [1, 0]] ! 1 ! 0 / column_sum [[3, 0], [1, 0]] 0"
    by simp
  from row [THEN spec, of 1] cs1
  have c3: "[[3 / 4, 0], [1 / 4, 0 :: real]] ! 1 ! 1 = [[3, 0], [1, 0]] ! 1 ! 1"
    by simp
  from t1 c1 t2 c2 cs1 c3 show ?thesis by blast
qed

text \<open>
  Claim C9, as amended. Both entry points raise the TypeError of the Check Frequency Bands
  section, whatever the other arguments are, when the band table is not a dict or one of
  its values is not a list of exactly two elements (so a value with three elements is
  refused); the elements themselves are not inspected, and every table made of
  two-element lists passes the check.
\<close>

theorem band_table_validation:
  "(\<not> two_element_lists freq_bands \<longrightarrow>
      plot_freq_scan_hist data freq_bands nrm boundary omit_bands txt =
        Inl (TypeError (if freq_bands = NotDict then ''Invalid frequency bands format''
                        else ''Invalid frequency band format'')) \<and>
      plot_freq_scan_2d_hist data freq_bands date_bin nrm boundary omit_bands txt =
        Inl (TypeError (if freq_bands = NotDict then ''Invalid frequency bands format''
                        else ''Invalid frequency band format''))) \<and>
   (two_element_lists freq_bands \<longrightarrow> (\<exists>fb. check_freq_bands freq_bands = Inr fb))"
proof (intro conjI impI)
  assume "two_element_lists freq_bands"
  then show "\<exists>fb. check_freq_bands freq_bands = Inr fb"
    by (cases freq_bands) (auto simp: two_element_lists_def check_bands_accept)
next
  assume bad: "\<not> two_element_lists freq_bands"
  show "plot_freq_scan_hist data freq_bands nrm boundary omit_bands txt =
        Inl (TypeError (if freq_bands = NotDict then ''Invalid frequency bands format''
                        else ''Invalid frequency band format''))"
    unfolding plot_freq_scan_hist_def check_freq_bands_reject [OF bad] by simp
next
  assume bad: "\<not> two_element_lists freq_bands"
  show "plot_freq_scan_2d_hist data freq_bands date_bin nrm boundary omit_bands txt =
        Inl (TypeError (if freq_bands = NotDict then ''Invalid frequency bands format''
                        else ''Invalid frequency band format''))"
    unfolding plot_freq_scan_2d_hist_def check_freq_bands_reject [OF bad] by simp
qed

theorem band_table_validation_witness:
  "\<not> two_element_lists (Dict [(KStr ''0'', PyList [Num 8000, Num 10000]), (KStr ''1'', PyList [Num 10000, Num 11000, Num 12000])]) \<and>
   plot_freq_scan_hist [] (Dict [(KStr ''0'', PyList [Num 8000, Num 10000]), (KStr ''1'', PyList [Num 10000, Num 11000, Num 12000])])
      True None (Some (OmitInt 7)) True = Inl (TypeError ''Invalid frequency band format'') \<and>
   plot_freq_scan_2d_hist [] (Dict [(KStr ''0'', PyList [Num 8000, Num 10000]), (KStr ''1'', PyList [Num 10000, Num 11000, Num 12000])])
      ''week'' True None (Some (OmitInt 7)) True = Inl (TypeError ''Invalid frequency band format'') \<and>
   two_element_lists (Dict [(KStr ''0'', PyList [Num 8000, Num 10000])]) \<and>
   (\<exists>fb. check_freq_bands (Dict [(KStr ''0'', PyList [Num 8000, Num 10000])]) = Inr fb)"
proof -
  let ?bad = "Dict [(KStr ''0'', PyList [Num 8000, Num 10000]), (KStr ''1'', PyList [Num 10000, Num 11000, Num 12000])]"
  let ?good = "Dict [(KStr ''0'', PyList [Num 8000, Num 10000])]"
  have bad: "\<not> two_element_lists ?bad" by (simp add: two_element_lists_def)
  have good: "two_element_lists ?good" by (simp add: two_element_lists_def)
  have neq: "?bad \<noteq> NotDict" by simp
  from band_table_validation [of ?bad "[]" True None "Some (OmitInt 7)" True "''week''"] bad
  have "plot_freq_scan_hist [] ?bad True None (Some (OmitInt 7)) True = Inl (TypeError ''Invalid frequency band format'')"
    and "plot_freq_scan_2d_hist [] ?bad ''week'' True None (Some (OmitInt 7)) True = Inl (TypeError ''Invalid frequency band format'')"
    by simp_all
  moreover from band_table_validation [of ?good "[]" True None None True "''hour''"] good
  have "\<exists>fb. check_freq_bands ?good = Inr fb" by blast
  ultimately show ?thesis using bad good by blast
qed

text \<open>
  The claim as stated asks for a failure whenever a value is not a pair of numbers. A
  list of two strings passes the check, and the 2D entry point returns a ranked list for
  it when no record reaches a comparison with a frequency.
\<close>

theorem nonnumeric_band_accepted:
  "plot_freq_scan_2d_hist
     [\<lparr>channel = 2, tfreq = NaN, gflg = Some [0, 0], time_yr = 2024, time_mo = 5, time_dy = 17, time_hr = 14\<rparr>]
     (Dict [(KStr ''0'', PyList [Str ''a'', Str ''b''])]) ''hour'' True None None True
   = Inr \<lparr>ordered_bands = [\<lparr>Band = 0, Freq_Range = (Str ''a'', Str ''b''), Count = 0\<rparr>], plotted = [[0]]\<rparr>"
  by code_simp

text \<open>
  Claim C10. Each omitted identifier is looked up as \<^verbatim>\<open>freq_bands[str(band)]\<close>. For a
  numeric band table whose keys are all ints (non-empty, or with a boundary supplied, so
  that the earlier sections pass), every \<^verbatim>\<open>omit_bands\<close> with at least one item
  makes both entry points raise the TypeError of the Remove Bands section, whatever the
  items are. An int \<open>i\<close> whose decimal string is a key of the table is accepted: the
  lookup yields that key's band, and neither entry point raises that TypeError.
\<close>

theorem omit_lookup_by_str:
  "(int_keyed t \<and> omit_items a \<noteq> [] \<and> (t \<noteq> [] \<or> bo \<noteq> None) \<longrightarrow>
      plot_freq_scan_hist data (num_dict t) nrm (map_option nb bo) (Some a) txt
        = Inl (TypeError ''Invalid frequency bands to omit'') \<and>
      plot_freq_scan_2d_hist data (num_dict t) date_bin nrm (map_option nb bo) (Some a) txt
        = Inl (TypeError ''Invalid frequency bands to omit'')) \<and>
   (map_of t (KStr (py_str i)) = Some b \<longrightarrow>
      remove_bands (Some (OmitInt i)) (num_bands t) = Inr (Some [nb b]) \<and>
      plot_freq_scan_hist data (num_dict t) nrm (map_option nb bo) (Some (OmitInt i)) txt
        \<noteq> Inl (TypeError ''Invalid frequency bands to omit'') \<and>
      plot_freq_scan_2d_hist data (num_dict t) date_bin nrm (map_option nb bo) (Some (OmitInt i)) txt
        \<noteq> Inl (TypeError ''Invalid frequency bands to omit''))"
proof (intro conjI impI)
  assume a: "int_keyed t \<and> omit_items a \<noteq> [] \<and> (t \<noteq> [] \<or> bo \<noteq> None)"
  then obtain b0 b1 where bnd: "generate_boundary (map_option nb bo) (num_bands t) = Inr (Num b0, Num b1)"
    using generate_boundary_num by blast
  have rb: "remove_bands (Some a) (num_bands t) = Inl (TypeError ''Invalid frequency bands to omit'')"
    using a remove_bands_int_keyed [of t a] by (simp add: omit_error_def)
  show "plot_freq_scan_hist data (num_dict t) nrm (map_option nb bo) (Some a) txt
        = Inl (TypeError ''Invalid frequency bands to omit'')"
    by (simp add: plot_freq_scan_hist_def check_freq_bands_num bnd gather_bands_1d_num rb)
  obtain g where "gather_bands_2d (Num b0, Num b1) (num_bands t) = Inr g"
    using a gather_bands_2d_int_keyed by blast
  then show "plot_freq_scan_2d_hist data (num_dict t) date_bin nrm (map_option nb bo) (Some a) txt
        = Inl (TypeError ''Invalid frequency bands to omit'')"
    by (simp add: plot_freq_scan_2d_hist_def check_freq_bands_num bnd rb)
next
  assume k: "map_of t (KStr (py_str i)) = Some b"
  show rb1: "remove_bands (Some (OmitInt i)) (num_bands t) = Inr (Some [nb b])"
    by (simp add: remove_bands_def omit_items_def str_of_ident_def map_of_num_bands k)
  then have rb: "remove_bands (Some (OmitInt i)) (num_bands t) = Inr (map_option (map nb) (Some [b]))"
    by simp
  from k have "t \<noteq> []" by auto
  then obtain b0 b1 where bnd: "generate_boundary (map_option nb bo) (num_bands t) = Inr (Num b0, Num b1)"
    using generate_boundary_num by blast
  show "plot_freq_scan_hist data (num_dict t) nrm (map_option nb bo) (Some (OmitInt i)) txt
        \<noteq> Inl (TypeError ''Invalid frequency bands to omit'')"
  proof (cases "title_dates_1d data")
    case (Inl e)
    with title_dates_1d_error [OF Inl, of "''Invalid frequency bands to omit''"] show ?thesis
      unfolding plot_freq_scan_hist_num [OF bnd rb] by simp
  next
    case (Inr td)
    then show ?thesis
      unfolding plot_freq_scan_hist_num [OF bnd rb] by simp
  qed
  show "plot_freq_scan_2d_hist data (num_dict t) date_bin nrm (map_option nb bo) (Some (OmitInt i)) txt
        \<noteq> Inl (TypeError ''Invalid frequency bands to omit'')"
  proof (cases "gather_bands_2d (Num b0, Num b1) (num_bands t)")
    case (Inl e)
    with gather_bands_2d_num_error [OF Inl] show ?thesis
      by (simp add: plot_freq_scan_2d_hist_def check_freq_bands_num bnd)
  next
    case g: (Inr g)
    have bands: "map snd g = map nb (map snd (filter (ends_inside b0 b1) t))"
      using gather_bands_2d_num [OF g] by simp
    show ?thesis
    proof (cases "gather_dates date_bin data (None, [])")
      case (Inl e)
      with gather_dates_error [OF Inl, of "''Invalid frequency bands to omit''"] show ?thesis
        by (simp add: plot_freq_scan_2d_hist_def check_freq_bands_num bnd g rb1)
    next
      case ds: (Inr ds)
      let ?gen = "generate_hist2d (Num b0, Num b1) (map_option (map nb) (Some [b]))
                    (map nb (map snd (filter (ends_inside b0 b1) t))) date_bin (snd ds) data
                    (fst ds, replicate (length g) (replicate (length (snd ds)) 0))"
      show ?thesis
      proof (cases ?gen)
        case (Inl e)
        with generate_hist2d_num_error [OF Inl, of "''Invalid frequency bands to omit''"] bands show ?thesis
          by (simp add: plot_freq_scan_2d_hist_def check_freq_bands_num bnd g rb1 ds)
      next
        case st: (Inr st)
        show ?thesis
        proof (cases "plot_titles_2d date_bin data txt
                        (ordered_bands_2d (map nb (map snd (filter (ends_inside b0 b1) t))) (snd st))")
          case (Inl e)
          with plot_titles_2d_error [OF Inl, of "''Invalid frequency bands to omit''"] bands st show ?thesis
            by (simp add: plot_freq_scan_2d_hist_def check_freq_bands_num bnd g rb1 ds)
        next
          case (Inr u)
          with bands st show ?thesis
            by (simp add: plot_freq_scan_2d_hist_def check_freq_bands_num bnd g rb1 ds)
        qed
      qed
    qed
  qed
qed

theorem omit_lookup_by_str_witness:
  "int_keyed [(KInt 0, (8000, 10000)), (KInt 1, (10000, 12000))] \<and>
   omit_items (OmitInt 1) \<noteq> [] \<and>
   plot_freq_scan_hist ex_data (num_dict [(KInt 0, (8000, 10000)), (KInt 1, (10000, 12000))]) True None
      (Some (OmitInt 1)) True = Inl (TypeError ''Invalid frequency bands to omit'') \<and>
   plot_freq_scan_2d_hist ex_data (num_dict [(KInt 0, (8000, 10000)), (KInt 1, (10000, 12000))]) ''hour'' True None
      (Some (OmitInt 1)) True = Inl (TypeError ''Invalid frequency bands to omit'') \<and>
   map_of ex_table (KStr (py_str 1)) = Some (10000, 12000) \<and>
   remove_bands (Some (OmitInt 1)) (num_bands ex_table) = Inr (Some [nb (10000, 12000)]) \<and>
   plot_freq_scan_hist ex_data (num_dict ex_table) True None (Some (OmitInt 1)) True
      \<noteq> Inl (TypeError ''Invalid frequency bands to omit'') \<and>
   plot_freq_scan_2d_hist ex_data (num_dict ex_table) ''hour'' True None (Some (OmitInt 1)) True
      \<noteq> Inl (TypeError ''Invalid frequency bands to omit'')"
proof -
  let ?t = "[(KInt 0, (8000::real, 10000::real)), (KInt 1, (10000, 12000))]"
  have ik: "int_keyed ?t" by (simp add: int_keyed_def)
  have ne: "omit_items (OmitInt 1) \<noteq> []" by (simp add: omit_items_def)
  have k: "map_of ex_table (KStr (py_str 1)) = Some (10000, 12000)" by code_simp
  note w1 = omit_lookup_by_str [of ?t "OmitInt 1" None ex_data True True "''hour''",
               THEN conjunct1, THEN mp]
  note w2 = omit_lookup_by_str [of ex_table _ None ex_data True True "''hour''" 1 "(10000, 12000)",
               THEN conjunct2, THEN mp, OF k]
  from w1 ik ne have
    "plot_freq_scan_hist ex_data (num_dict ?t) True None (Some (OmitInt 1)) True
        = Inl (TypeError ''Invalid frequency bands to omit'')"
    "plot_freq_scan_2d_hist ex_data (num_dict ?t) ''hour'' True None (Some (OmitInt 1)) True
        = Inl (TypeError ''Invalid frequency bands to omit'')"
    by simp_all
  moreover from w2 have
    "remove_bands (Some (OmitInt 1)) (num_bands ex_table) = Inr (Some [nb (10000, 12000)])"
    "plot_freq_scan_hist ex_data (num_dict ex_table) True None (Some (OmitInt 1)) True
      \<noteq> Inl (TypeError ''Invalid frequency bands to omit'')"
    "plot_freq_scan_2d_hist ex_data (num_dict ex_table) ''hour'' True None (Some (OmitInt 1)) True
      \<noteq> Inl (TypeError ''Invalid frequency bands to omit'')"
    by simp_all
  ultimately show ?thesis using ik ne k by blast
qed

end
